theory Spec2Isabelle
  imports Main
begin

section \<open>JavaScript values, strings and errors\<close>

text \<open>
  The server (\<^verbatim>\<open>src/main.ts\<close>) is a TypeScript program on Node.js. Its handlers
  receive JSON values, interpolate them into SQL text and hand them to the Oracle
  driver. A string is modelled as the list of the bytes of its UTF-8 encoding, so that
  ASCII text is the list of its characters; numbers are modelled as integers
  (fractions, NaN and the infinities are outside the model). The message texts of language errors are the engine's own; they are given
  here without their quotation marks.
\<close>

datatype jsval =
    JUndefined
  | JNull
  | JBool bool
  | JNum int
  | JStr string
  | JArr "jsval list"
  | JObj "(string \<times> jsval) list"

text \<open>
  A thrown value. \<open>message\<close> and \<open>errorNum\<close> are the two properties the catch
  blocks read: \<^verbatim>\<open>error.message\<close> and \<^verbatim>\<open>error.errorNum\<close> (the driver's
  ORA number, absent on language errors).
\<close>

datatype js_error =
    TypeError string
  | Error string
  | DriverError string "int option"

fun message :: "js_error \<Rightarrow> string" where
  "message (TypeError m) = m"
| "message (Error m) = m"
| "message (DriverError m n) = m"

fun errorNum :: "js_error \<Rightarrow> jsval" where
  "errorNum (TypeError m) = JUndefined"
| "errorNum (Error m) = JUndefined"
| "errorNum (DriverError m None) = JUndefined"
| "errorNum (DriverError m (Some n)) = JNum n"

subsection \<open>String.prototype.toUpperCase\<close>

text \<open>
  \<^verbatim>\<open>toUpperCase\<close> maps every code point by itself, through the case table of Unicode.
  On ASCII the table is written out here: the letters a to z go to A to Z and nothing
  else changes. Outside ASCII the table is the platform's and a parameter of the model:
  \<open>tbl run\<close> is the upper-case form of \<open>run\<close>, a maximal stretch of text outside
  ASCII (bytes from 128). That form may be ASCII text, as for the small sharp s, whose
  upper-case form is SS.
\<close>

type_synonym case_table = "string \<Rightarrow> string"

definition is_ascii :: "char \<Rightarrow> bool" where
  "is_ascii ch = ((of_char ch :: nat) < 128)"

definition upper_char :: "char \<Rightarrow> char" where
  "upper_char ch =
     (let n = (of_char ch :: nat) in if 97 \<le> n \<and> n \<le> 122 then char_of (n - 32) else ch)"

text \<open>\<open>run\<close> is the stretch of text outside ASCII read so far and not yet converted.\<close>

fun upper_runs :: "case_table \<Rightarrow> string \<Rightarrow> string \<Rightarrow> string" where
  "upper_runs tbl run [] = (if run = [] then [] else tbl run)"
| "upper_runs tbl run (ch # s) =
     (if is_ascii ch
      then (if run = [] then [] else tbl run) @ upper_char ch # upper_runs tbl [] s
      else upper_runs tbl (run @ [ch]) s)"

definition toUpperCase :: "case_table \<Rightarrow> string \<Rightarrow> string" where
  "toUpperCase tbl s = upper_runs tbl [] s"

text \<open>
  \<^verbatim>\<open>(v as string).toUpperCase()\<close>: the cast checks nothing at run time, so the call
  throws a TypeError on \<^verbatim>\<open>undefined\<close> and \<^verbatim>\<open>null\<close> (no properties) and on
  every other non-string JSON value (no such method).
\<close>

fun call_toUpperCase :: "case_table \<Rightarrow> jsval \<Rightarrow> js_error + string" where
  "call_toUpperCase tbl (JStr s) = Inr (toUpperCase tbl s)"
| "call_toUpperCase tbl JUndefined =
     Inl (TypeError ''Cannot read properties of undefined (reading toUpperCase)'')"
| "call_toUpperCase tbl JNull =
     Inl (TypeError ''Cannot read properties of null (reading toUpperCase)'')"
| "call_toUpperCase tbl v = Inl (TypeError ''toUpperCase is not a function'')"

subsection \<open>Conversion to string in template literals\<close>

fun string_of_nat :: "nat \<Rightarrow> string" where
  "string_of_nat n =
     (if n < 10 then [char_of (48 + n)]
      else string_of_nat (n div 10) @ [char_of (48 + n mod 10)])"

declare string_of_nat.simps [simp del]

definition string_of_int :: "int \<Rightarrow> string" where
  "string_of_int i = (if i < 0 then CHR ''-'' # string_of_nat (nat (- i)) else string_of_nat (nat i))"

fun join_with :: "string \<Rightarrow> string list \<Rightarrow> string" where
  "join_with sep [] = []"
| "join_with sep [x] = x"
| "join_with sep (x # y # ys) = x @ sep @ join_with sep (y # ys)"

text \<open>
  \<^verbatim>\<open>`${v}`\<close>: a string is itself, a number its decimal digits, an array its elements
  joined by commas (\<^verbatim>\<open>undefined\<close> and \<^verbatim>\<open>null\<close> elements as the empty string), any
  other object \<^verbatim>\<open>[object Object]\<close>.
\<close>

fun js_to_string :: "jsval \<Rightarrow> string" where
  "js_to_string JUndefined = ''undefined''"
| "js_to_string JNull = ''null''"
| "js_to_string (JBool b) = (if b then ''true'' else ''false'')"
| "js_to_string (JNum n) = string_of_int n"
| "js_to_string (JStr s) = s"
| "js_to_string (JArr xs) =
     join_with '',''
       (map (\<lambda>x. if x = JUndefined \<or> x = JNull then [] else js_to_string x) xs)"
| "js_to_string (JObj kvs) = ''[object Object]''"

subsection \<open>Truthiness and comparison\<close>

fun js_truthy :: "jsval \<Rightarrow> bool" where
  "js_truthy JUndefined = False"
| "js_truthy JNull = False"
| "js_truthy (JBool b) = b"
| "js_truthy (JNum n) = (n \<noteq> 0)"
| "js_truthy (JStr s) = (s \<noteq> [])"
| "js_truthy (JArr xs) = True"
| "js_truthy (JObj kvs) = True"

text \<open>\<^verbatim>\<open>a || b\<close> on values.\<close>

definition js_or :: "jsval \<Rightarrow> jsval \<Rightarrow> jsval" where
  "js_or a b = (if js_truthy a then a else b)"

definition is_digit :: "char \<Rightarrow> bool" where
  "is_digit ch = (48 \<le> (of_char ch :: nat) \<and> (of_char ch :: nat) \<le> 57)"

definition is_space :: "char \<Rightarrow> bool" where
  "is_space ch = ((of_char ch :: nat) \<in> {9, 10, 11, 12, 13, 32})"

definition digits_value :: "string \<Rightarrow> nat" where
  "digits_value s = foldl (\<lambda>acc ch. 10 * acc + ((of_char ch :: nat) - 48)) 0 s"

definition trim :: "string \<Rightarrow> string" where
  "trim s = rev (dropWhile is_space (rev (dropWhile is_space s)))"

text \<open>
  The number a string converts to, \<open>None\<close> standing for NaN. Only integer literals are
  modelled: an optional sign and decimal digits, between ASCII white space; the empty string
  is 0.
\<close>

definition string_to_number :: "string \<Rightarrow> int option" where
  "string_to_number s =
     (case trim s of
        [] \<Rightarrow> Some 0
      | ch # r \<Rightarrow>
          if ch = CHR ''-'' \<and> r \<noteq> [] \<and> list_all is_digit r then Some (- int (digits_value r))
          else if ch = CHR ''+'' \<and> r \<noteq> [] \<and> list_all is_digit r then Some (int (digits_value r))
          else if list_all is_digit (ch # r) then Some (int (digits_value (ch # r)))
          else None)"

fun js_to_number :: "jsval \<Rightarrow> int option" where
  "js_to_number JUndefined = None"
| "js_to_number JNull = Some 0"
| "js_to_number (JBool b) = Some (if b then 1 else 0)"
| "js_to_number (JNum n) = Some n"
| "js_to_number (JStr s) = string_to_number s"
| "js_to_number (JArr xs) = string_to_number (js_to_string (JArr xs))"
| "js_to_number (JObj kvs) = None"

text \<open>\<^verbatim>\<open>v > 0\<close>: false when \<open>v\<close> converts to NaN.\<close>

definition js_gt_zero :: "jsval \<Rightarrow> bool" where
  "js_gt_zero v = (case js_to_number v of None \<Rightarrow> False | Some n \<Rightarrow> 0 < n)"

text \<open>
  \<^verbatim>\<open>o.k\<close> for a key that no string or array carries: a TypeError on \<^verbatim>\<open>undefined\<close>
  and \<^verbatim>\<open>null\<close>, the stored value on an object that has the key, \<^verbatim>\<open>undefined\<close>
  otherwise.
\<close>

fun js_prop :: "jsval \<Rightarrow> string \<Rightarrow> js_error + jsval" where
  "js_prop JUndefined k = Inl (TypeError (''Cannot read properties of undefined (reading '' @ k @ '')''))"
| "js_prop JNull k = Inl (TypeError (''Cannot read properties of null (reading '' @ k @ '')''))"
| "js_prop (JObj kvs) k = (case map_of kvs k of None \<Rightarrow> Inr JUndefined | Some v \<Rightarrow> Inr v)"
| "js_prop v k = Inr JUndefined"

text \<open>
  The code points of a string: in UTF-8 every byte from 128 to 191 continues the code
  point that the bytes before it began.
\<close>

definition is_continuation :: "char \<Rightarrow> bool" where
  "is_continuation ch = (128 \<le> (of_char ch :: nat) \<and> (of_char ch :: nat) < 192)"

fun code_points :: "string \<Rightarrow> string list" where
  "code_points [] = []"
| "code_points (ch # s) =
     (case s of
        [] \<Rightarrow> [[ch]]
      | nxt # r \<Rightarrow>
          if is_continuation nxt
          then (case code_points s of [] \<Rightarrow> [[ch]] | cp # cps \<Rightarrow> (ch # cp) # cps)
          else [ch] # code_points s)"

text \<open>
  \<^verbatim>\<open>for (const x of v)\<close>: the elements of an array, the code points of a string, a
  TypeError on anything else.
\<close>

fun js_iterate :: "jsval \<Rightarrow> js_error + jsval list" where
  "js_iterate (JArr xs) = Inr xs"
| "js_iterate (JStr s) = Inr (map JStr (code_points s))"
| "js_iterate v = Inl (TypeError ''privileges is not iterable'')"

section \<open>The Oracle driver and the world\<close>

text \<open>
  The driver (\<^verbatim>\<open>oracledb\<close>) is not part of the repository: it is a parameter of the
  model, a deterministic machine over a driver state \<open>'d\<close> that holds the pool, the
  sessions and the database. Every promise it returns either resolves (\<open>Inr\<close>) or
  rejects (\<open>Inl\<close>); a promise that never settles is outside the model, and so is the
  interleaving of two requests: a handler runs from its first \<^verbatim>\<open>await\<close> to its last
  as one sequence of driver calls. Bind values and options that a call leaves out are
  the empty list.
\<close>

type_synonym conn = nat

text \<open>The properties of the options object passed to \<^verbatim>\<open>connection.execute\<close>.\<close>

datatype exec_option = MaxRows jsval | AutoCommit bool

text \<open>
  What \<^verbatim>\<open>connection.execute\<close> resolves to: \<open>rows\<close> is \<open>None\<close> for
  \<^verbatim>\<open>undefined\<close> (a statement that is not a query), and likewise \<open>rowsAffected\<close>.
\<close>

record exec_result =
  rows :: "jsval list option"
  rowsAffected :: "int option"

record 'd driver =
  pool_getConnection :: "'d \<Rightarrow> (js_error + conn) \<times> 'd"
  conn_execute :: "conn \<Rightarrow> jsval \<Rightarrow> jsval list \<Rightarrow> exec_option list \<Rightarrow> 'd \<Rightarrow> (js_error + exec_result) \<times> 'd"
  conn_close :: "conn \<Rightarrow> 'd \<Rightarrow> (js_error + unit) \<times> 'd"

text \<open>
  The world a handler runs in: the driver state and the chronological record of every
  driver call (with its outcome) and of every line written by \<^verbatim>\<open>console.error\<close>.
\<close>

datatype event =
    EvGetConnection "js_error + conn"
  | EvExecute conn jsval "jsval list" "exec_option list" "js_error + exec_result"
  | EvClose conn "js_error + unit"
  | EvConsoleError string js_error

record 'd world =
  db :: 'd
  trace :: "event list"

definition getConnection :: "'d driver \<Rightarrow> 'd world \<Rightarrow> (js_error + conn) \<times> 'd world" where
  "getConnection drv w =
     (let (r, d) = pool_getConnection drv (db w)
      in (r, w\<lparr>db := d, trace := trace w @ [EvGetConnection r]\<rparr>))"

definition execute ::
  "'d driver \<Rightarrow> conn \<Rightarrow> jsval \<Rightarrow> jsval list \<Rightarrow> exec_option list \<Rightarrow> 'd world
     \<Rightarrow> (js_error + exec_result) \<times> 'd world" where
  "execute drv c sql binds opts w =
     (let (r, d) = conn_execute drv c sql binds opts (db w)
      in (r, w\<lparr>db := d, trace := trace w @ [EvExecute c sql binds opts r]\<rparr>))"

definition close :: "'d driver \<Rightarrow> conn \<Rightarrow> 'd world \<Rightarrow> (js_error + unit) \<times> 'd world" where
  "close drv c w =
     (let (r, d) = conn_close drv c (db w)
      in (r, w\<lparr>db := d, trace := trace w @ [EvClose c r]\<rparr>))"

definition console_error :: "string \<Rightarrow> js_error \<Rightarrow> 'd world \<Rightarrow> 'd world" where
  "console_error label err w = w\<lparr>trace := trace w @ [EvConsoleError label err]\<rparr>"

section \<open>withConnection\<close>

text \<open>
  \<^verbatim>\<open>try { connection = await pool.getConnection(); return await callback(connection) }
  catch (err) { console.error(..., err); throw err }
  finally { if (connection) { try { await connection.close() } catch (err) { console.error(..., err) } } }\<close>
  When \<^verbatim>\<open>getConnection\<close> rejects, \<^verbatim>\<open>connection\<close> is still undefined in the
  \<^verbatim>\<open>finally\<close> block and nothing is closed.
\<close>

definition withConnection ::
  "'d driver \<Rightarrow> (conn \<Rightarrow> 'd world \<Rightarrow> (js_error + 'a) \<times> 'd world) \<Rightarrow> 'd world
     \<Rightarrow> (js_error + 'a) \<times> 'd world" where
  "withConnection drv callback w =
     (case getConnection drv w of
        (Inl err, w1) \<Rightarrow> (Inl err, console_error ''Database operation error:'' err w1)
      | (Inr connection, w1) \<Rightarrow>
          (let (res, w2) = callback connection w1;
               w3 = (case res of
                       Inl err \<Rightarrow> console_error ''Database operation error:'' err w2
                     | Inr v \<Rightarrow> w2);
               (cl, w4) = close drv connection w3;
               w5 = (case cl of
                       Inl err \<Rightarrow> console_error ''Error closing connection:'' err w4
                     | Inr u \<Rightarrow> w4)
           in (res, w5)))"

section \<open>The tool handlers\<close>

text \<open>
  The result of a tool call. \<open>payload\<close> is the value the handler passes to
  \<^verbatim>\<open>JSON.stringify(\<cdot>, null, 2)\<close>; the envelope's \<^verbatim>\<open>content\<close> is the one text
  item holding that serialisation (which drops the properties whose value is
  \<^verbatim>\<open>undefined\<close>).
\<close>

record envelope =
  payload :: jsval
  isError :: bool

text \<open>\<^verbatim>\<open>request.params\<close>: the tool's name and the optional arguments object.\<close>

record request =
  name :: string
  arguments :: "(string \<rightharpoonup> jsval) option"

text \<open>\<^verbatim>\<open>request.params.arguments?.k\<close>\<close>

definition arg :: "request \<Rightarrow> string \<Rightarrow> jsval" where
  "arg req k =
     (case arguments req of
        None \<Rightarrow> JUndefined
      | Some m \<Rightarrow> (case m k of None \<Rightarrow> JUndefined | Some v \<Rightarrow> v))"

definition handleNonQueryResult :: "exec_result \<Rightarrow> jsval" where
  "handleNonQueryResult result =
     (case rowsAffected result of
        Some n \<Rightarrow>
          JObj [(''message'', JStr (''Operation completed successfully. Rows affected: '' @ string_of_int n)),
                (''rowsAffected'', JNum n)]
      | None \<Rightarrow> JObj [(''message'', JStr ''Operation completed successfully'')])"

text \<open>
  The envelope every \<^verbatim>\<open>catch (error)\<close> block of a handler builds, up to its
  suggestion text.
\<close>

definition caught :: "js_error \<Rightarrow> string \<Rightarrow> envelope" where
  "caught error suggestion =
     \<lparr>payload = JObj [(''error'', JStr (message error)),
                      (''errorCode'', errorNum error),
                      (''suggestion'', JStr suggestion)],
      isError = True\<rparr>"

text \<open>
  The \<^verbatim>\<open>finally\<close> block of \<^verbatim>\<open>query\<close> and \<^verbatim>\<open>get_table_data\<close>: a rollback
  whose failure is logged and goes no further.
\<close>

definition rollback :: "'d driver \<Rightarrow> conn \<Rightarrow> 'd world \<Rightarrow> 'd world" where
  "rollback drv connection w =
     (case execute drv connection (JStr ''ROLLBACK'') [] [] w of
        (Inl err, w1) \<Rightarrow> console_error ''Error during rollback:'' err w1
      | (Inr r, w1) \<Rightarrow> w1)"

subsection \<open>query\<close>

definition query_callback ::
  "'d driver \<Rightarrow> jsval \<Rightarrow> conn \<Rightarrow> 'd world \<Rightarrow> (js_error + envelope) \<times> 'd world" where
  "query_callback drv sql connection w =
     (let (res, w2) =
        (case execute drv connection (JStr ''SET TRANSACTION READ ONLY'') [] [] w of
           (Inl err, w1) \<Rightarrow> (Inl err, w1)
         | (Inr r, w1) \<Rightarrow>
             (case execute drv connection sql [] [MaxRows (JNum 1000)] w1 of
                (Inl err, w2) \<Rightarrow> (Inl err, w2)
              | (Inr result, w2) \<Rightarrow>
                  (Inr \<lparr>payload = (case rows result of None \<Rightarrow> JUndefined | Some rs \<Rightarrow> JArr rs),
                        isError = False\<rparr>, w2)))
      in (res, rollback drv connection w2))"

subsection \<open>execute\<close>

definition execute_callback ::
  "'d driver \<Rightarrow> jsval \<Rightarrow> conn \<Rightarrow> 'd world \<Rightarrow> (js_error + envelope) \<times> 'd world" where
  "execute_callback drv sql connection w =
     (case execute drv connection sql [] [AutoCommit True] w of
        (Inr result, w1) \<Rightarrow> (Inr \<lparr>payload = handleNonQueryResult result, isError = False\<rparr>, w1)
      | (Inl error, w1) \<Rightarrow> (Inr (caught error ''Verifique la sintaxis SQL y los permisos''), w1))"

subsection \<open>check\_user\_exists\<close>

definition user_count_sql :: string where
  "user_count_sql = ''SELECT COUNT(*) AS EXIST_COUNT FROM dba_users WHERE username = :username''"

text \<open>\<^verbatim>\<open>result.rows[0].EXIST_COUNT\<close>, with the TypeErrors of the two property reads.\<close>

definition exist_count :: "exec_result \<Rightarrow> js_error + jsval" where
  "exist_count result =
     (case rows result of
        None \<Rightarrow> Inl (TypeError ''Cannot read properties of undefined (reading 0)'')
      | Some [] \<Rightarrow> js_prop JUndefined ''EXIST_COUNT''
      | Some (row # rs) \<Rightarrow> js_prop row ''EXIST_COUNT'')"

definition check_user_exists_callback ::
  "'d driver \<Rightarrow> string \<Rightarrow> conn \<Rightarrow> 'd world \<Rightarrow> (js_error + envelope) \<times> 'd world" where
  "check_user_exists_callback drv username connection w =
     (case execute drv connection (JStr user_count_sql) [JStr username] [] w of
        (Inl err, w1) \<Rightarrow> (Inl err, w1)
      | (Inr result, w1) \<Rightarrow>
          (case exist_count result of
             Inl err \<Rightarrow> (Inl err, w1)
           | Inr n \<Rightarrow>
               (Inr \<lparr>payload = JObj [(''username'', JStr username), (''exists'', JBool (js_gt_zero n))],
                     isError = False\<rparr>, w1)))"

subsection \<open>create\_user\<close>

definition create_user_sql :: "string \<Rightarrow> jsval \<Rightarrow> string" where
  "create_user_sql username password =
     ''CREATE USER '' @ username @ '' IDENTIFIED BY '' @ [CHR 0x22] @ js_to_string password @ [CHR 0x22]"

text \<open>The template literal runs over three source lines; the line breaks are part of it.\<close>

definition alter_user_sql :: "string \<Rightarrow> jsval \<Rightarrow> jsval \<Rightarrow> string" where
  "alter_user_sql username tablespace tempTablespace =
     ''ALTER USER '' @ username @ '' DEFAULT TABLESPACE '' @ js_to_string tablespace @ '' '' @ [CHR 0x0A]
     @ ''           TEMPORARY TABLESPACE '' @ js_to_string tempTablespace @ '' '' @ [CHR 0x0A]
     @ ''           QUOTA UNLIMITED ON '' @ js_to_string tablespace"

definition create_user_callback ::
  "'d driver \<Rightarrow> string \<Rightarrow> jsval \<Rightarrow> jsval \<Rightarrow> jsval \<Rightarrow> conn \<Rightarrow> 'd world
     \<Rightarrow> (js_error + envelope) \<times> 'd world" where
  "create_user_callback drv username password tablespace tempTablespace connection w =
     (let suggestion = ''Verifique la sintaxis y los permisos para crear usuarios'' in
      case execute drv connection (JStr user_count_sql) [JStr username] [] w of
        (Inl error, w1) \<Rightarrow> (Inr (caught error suggestion), w1)
      | (Inr checkResult, w1) \<Rightarrow>
          (case exist_count checkResult of
             Inl error \<Rightarrow> (Inr (caught error suggestion), w1)
           | Inr n \<Rightarrow>
               if js_gt_zero n then
                 (Inr \<lparr>payload = JObj [(''error'', JStr (''User '' @ username @ '' already exists'')),
                                       (''suggestion'', JStr ''Use a different username or drop the existing user first'')],
                       isError = True\<rparr>, w1)
               else
                 (case execute drv connection (JStr (create_user_sql username password)) []
                         [AutoCommit True] w1 of
                    (Inl error, w2) \<Rightarrow> (Inr (caught error suggestion), w2)
                  | (Inr r2, w2) \<Rightarrow>
                      (case execute drv connection
                              (JStr (alter_user_sql username tablespace tempTablespace)) []
                              [AutoCommit True] w2 of
                         (Inl error, w3) \<Rightarrow> (Inr (caught error suggestion), w3)
                       | (Inr r3, w3) \<Rightarrow>
                           (Inr \<lparr>payload = JObj [(''message'', JStr (''User '' @ username @ '' created successfully'')),
                                                 (''nextStep'', JStr ''Use grant_privileges tool to assign permissions to the user'')],
                                 isError = False\<rparr>, w3)))))"

subsection \<open>grant\_privileges\<close>

definition grant_sql :: "jsval \<Rightarrow> string \<Rightarrow> string" where
  "grant_sql privilege username = ''GRANT '' @ js_to_string privilege @ '' TO '' @ username"

text \<open>The entry pushed to \<^verbatim>\<open>results\<close> after one GRANT, resolved or rejected.\<close>

definition grant_result :: "jsval \<Rightarrow> js_error + exec_result \<Rightarrow> jsval" where
  "grant_result privilege r =
     (case r of
        Inr ok \<Rightarrow> JObj [(''privilege'', privilege), (''granted'', JBool True)]
      | Inl error \<Rightarrow>
          JObj [(''privilege'', privilege), (''granted'', JBool False),
                (''error'', JStr (message error))])"

text \<open>The \<^verbatim>\<open>for (const privilege of privileges)\<close> loop, over the elements still to go.\<close>

fun grant_loop ::
  "'d driver \<Rightarrow> conn \<Rightarrow> string \<Rightarrow> jsval list \<Rightarrow> jsval list \<Rightarrow> 'd world \<Rightarrow> jsval list \<times> 'd world" where
  "grant_loop drv connection username [] results w = (results, w)"
| "grant_loop drv connection username (privilege # ps) results w =
     (case execute drv connection (JStr (grant_sql privilege username)) [] [AutoCommit True] w of
        (r, w1) \<Rightarrow> grant_loop drv connection username ps (results @ [grant_result privilege r]) w1)"

definition grant_privileges_callback ::
  "'d driver \<Rightarrow> string \<Rightarrow> jsval \<Rightarrow> conn \<Rightarrow> 'd world \<Rightarrow> (js_error + envelope) \<times> 'd world" where
  "grant_privileges_callback drv username privileges connection w =
     (let suggestion = ''Verifique los permisos y la sintaxis de los privilegios'' in
      case execute drv connection (JStr user_count_sql) [JStr username] [] w of
        (Inl error, w1) \<Rightarrow> (Inr (caught error suggestion), w1)
      | (Inr checkResult, w1) \<Rightarrow>
          (case exist_count checkResult of
             Inl error \<Rightarrow> (Inr (caught error suggestion), w1)
           | Inr n \<Rightarrow>
               if n = JNum 0 then
                 (Inr \<lparr>payload = JObj [(''error'', JStr (''User '' @ username @ '' does not exist'')),
                                       (''suggestion'', JStr ''Create the user first using create_user tool'')],
                       isError = True\<rparr>, w1)
               else
                 (case js_iterate privileges of
                    Inl error \<Rightarrow> (Inr (caught error suggestion), w1)
                  | Inr ps \<Rightarrow>
                      (case grant_loop drv connection username ps [] w1 of
                         (results, w2) \<Rightarrow>
                           (Inr \<lparr>payload = JObj [(''message'', JStr (''Privileges processed for user '' @ username)),
                                                 (''results'', JArr results)],
                                 isError = False\<rparr>, w2)))))"

subsection \<open>get\_table\_data\<close>

definition table_owner_sql :: string where
  "table_owner_sql = ''SELECT owner FROM all_tables WHERE table_name = :tableName''"

definition table_data_sql :: "string \<Rightarrow> string" where
  "table_data_sql fullTableName = ''SELECT * FROM '' @ fullTableName @ '' WHERE ROWNUM <= :limit''"

text \<open>
  \<^verbatim>\<open>owner === user.toUpperCase() ? tableName.toUpperCase() : `${owner}.${tableName.toUpperCase()}`\<close>
  where \<open>upper\<close> is the table name already in upper case.
\<close>

definition fullTableName :: "case_table \<Rightarrow> string \<Rightarrow> jsval \<Rightarrow> string \<Rightarrow> string" where
  "fullTableName tbl user owner upper =
     (if owner = JStr (toUpperCase tbl user) then upper else js_to_string owner @ ''.'' @ upper)"

text \<open>
  The \<^verbatim>\<open>try\<close> block of the handler; \<^verbatim>\<open>tableName.toUpperCase()\<close> is first
  evaluated after the read-only statement has run.
\<close>

definition get_table_data_try ::
  "case_table \<Rightarrow> 'd driver \<Rightarrow> string \<Rightarrow> jsval \<Rightarrow> jsval \<Rightarrow> conn \<Rightarrow> 'd world \<Rightarrow> (js_error + envelope) \<times> 'd world" where
  "get_table_data_try tbl drv user tableName limit connection w =
     (case execute drv connection (JStr ''SET TRANSACTION READ ONLY'') [] [] w of
        (Inl error, w1) \<Rightarrow> (Inl error, w1)
      | (Inr r1, w1) \<Rightarrow>
          (case call_toUpperCase tbl tableName of
             Inl error \<Rightarrow> (Inl error, w1)
           | Inr upper \<Rightarrow>
               (case execute drv connection (JStr table_owner_sql) [JStr upper] [] w1 of
                  (Inl error, w2) \<Rightarrow> (Inl error, w2)
                | (Inr tableCheck, w2) \<Rightarrow>
                    (case rows tableCheck of
                       None \<Rightarrow> (Inl (TypeError ''Cannot read properties of undefined (reading length)''), w2)
                     | Some [] \<Rightarrow>
                         (Inr \<lparr>payload = JObj [(''error'', JStr (''Table '' @ js_to_string tableName
                                   @ '' does not exist or you don'' @ [CHR 0x27] @ ''t have access to it''))],
                               isError = True\<rparr>, w2)
                     | Some (row # rs) \<Rightarrow>
                         (case js_prop row ''OWNER'' of
                            Inl error \<Rightarrow> (Inl error, w2)
                          | Inr owner \<Rightarrow>
                              (case execute drv connection
                                      (JStr (table_data_sql (fullTableName tbl user owner upper)))
                                      [limit] [MaxRows limit] w2 of
                                 (Inl error, w3) \<Rightarrow> (Inl error, w3)
                               | (Inr result, w3) \<Rightarrow>
                                   (case rows result of
                                      None \<Rightarrow> (Inl (TypeError ''Cannot read properties of undefined (reading length)''), w3)
                                    | Some data \<Rightarrow>
                                        (Inr \<lparr>payload = JObj [(''tableName'', JStr upper),
                                                              (''owner'', owner),
                                                              (''rowCount'', JNum (int (length data))),
                                                              (''data'', JArr data)],
                                              isError = False\<rparr>, w3))))))))"

definition get_table_data_callback ::
  "case_table \<Rightarrow> 'd driver \<Rightarrow> string \<Rightarrow> jsval \<Rightarrow> jsval \<Rightarrow> conn \<Rightarrow> 'd world \<Rightarrow> (js_error + envelope) \<times> 'd world" where
  "get_table_data_callback tbl drv user tableName limit connection w =
     (case get_table_data_try tbl drv user tableName limit connection w of
        (Inr env, w1) \<Rightarrow> (Inr env, rollback drv connection w1)
      | (Inl error, w1) \<Rightarrow>
          (Inr (caught error ''Verifique el nombre de la tabla y sus permisos de acceso''),
           rollback drv connection w1))"

subsection \<open>The CallTool request handler\<close>

text \<open>
  \<open>tbl\<close> is the platform's case table, \<open>user\<close> the user name parsed from the
  connection string at startup. A value thrown by the handler (\<open>Inl\<close>) leaves it as a
  rejected promise.
\<close>

definition call_tool ::
  "case_table \<Rightarrow> 'd driver \<Rightarrow> string \<Rightarrow> request \<Rightarrow> 'd world \<Rightarrow> (js_error + envelope) \<times> 'd world" where
  "call_tool tbl drv user req w =
     (let toolName = name req in
      if toolName = ''query'' then
        withConnection drv (query_callback drv (arg req ''sql'')) w
      else if toolName = ''execute'' then
        withConnection drv (execute_callback drv (arg req ''sql'')) w
      else if toolName = ''check_user_exists'' then
        (case call_toUpperCase tbl (arg req ''username'') of
           Inl err \<Rightarrow> (Inl err, w)
         | Inr username \<Rightarrow> withConnection drv (check_user_exists_callback drv username) w)
      else if toolName = ''create_user'' then
        (case call_toUpperCase tbl (arg req ''username'') of
           Inl err \<Rightarrow> (Inl err, w)
         | Inr username \<Rightarrow>
             withConnection drv
               (create_user_callback drv username (arg req ''password'')
                  (js_or (arg req ''tablespace'') (JStr ''USERS''))
                  (js_or (arg req ''tempTablespace'') (JStr ''TEMP''))) w)
      else if toolName = ''grant_privileges'' then
        (case call_toUpperCase tbl (arg req ''username'') of
           Inl err \<Rightarrow> (Inl err, w)
         | Inr username \<Rightarrow>
             withConnection drv (grant_privileges_callback drv username (arg req ''privileges'')) w)
      else if toolName = ''get_table_data'' then
        withConnection drv
          (get_table_data_callback tbl drv user (arg req ''tableName'')
             (js_or (arg req ''limit'') (JNum 10))) w
      else (Inl (Error (''Unknown tool: '' @ toolName)), w))"

section \<open>Startup and the ListResources handler\<close>

text \<open>
  The creation of the pool (\<^verbatim>\<open>initializePool\<close>) is the driver's business: the worlds
  below are worlds in which the pool exists. The ReadResource handler and the tool
  catalogue of ListTools take no part in the properties proved here and are left out.
\<close>

subsection \<open>The connection string\<close>

text \<open>
  \<^verbatim>\<open>connectionString.match(/^(.+)\/(.+)@(.+):(\d+)\/(.+)$/)\<close>. Every group is greedy:
  the matcher tries the longest candidate first and backtracks to shorter ones, and the
  first complete match is the result. \<^verbatim>\<open>.\<close> matches any character but a line
  terminator: line feed, carriage return, and the separators U+2028 and U+2029 (in UTF-8
  the bytes E2 80 A8 and E2 80 A9). Every character of a matched string lies in a group
  or is one of the four literal characters, so a string with a line terminator in it
  does not match; for the two separators, which are more than one byte long, this is
  how the matcher below excludes them.
\<close>

definition dot :: "char \<Rightarrow> bool" where
  "dot ch = (ch \<noteq> CHR 0x0A \<and> ch \<noteq> CHR 0x0D)"

fun line_separator_in :: "string \<Rightarrow> bool" where
  "line_separator_in (a # b # c # s) =
     ((a = CHR 0xE2 \<and> b = CHR 0x80 \<and> (c = CHR 0xA8 \<or> c = CHR 0xA9))
      \<or> line_separator_in (b # c # s))"
| "line_separator_in s = False"

text \<open>
  The candidates of a group \<^verbatim>\<open>(p+)\<close> at the start of \<open>s\<close>, each with the rest of
  the input, the longest first.
\<close>

fun plus_splits :: "(char \<Rightarrow> bool) \<Rightarrow> string \<Rightarrow> (string \<times> string) list" where
  "plus_splits p [] = []"
| "plus_splits p (ch # s) =
     (if p ch then map (\<lambda>(a, b). (ch # a, b)) (plus_splits p s) @ [([ch], s)] else [])"

fun first_match :: "('a \<Rightarrow> 'b option) \<Rightarrow> 'a list \<Rightarrow> 'b option" where
  "first_match f [] = None"
| "first_match f (x # xs) = (case f x of Some y \<Rightarrow> Some y | None \<Rightarrow> first_match f xs)"

text \<open>A group followed by the literal character \<open>lit\<close> and by what \<open>k\<close> matches.\<close>

definition group_then ::
  "(char \<Rightarrow> bool) \<Rightarrow> char \<Rightarrow> (string \<Rightarrow> 'a option) \<Rightarrow> string \<Rightarrow> (string \<times> 'a) option" where
  "group_then p lit k s =
     first_match
       (\<lambda>(g, r). case r of
                   [] \<Rightarrow> None
                 | ch # r' \<Rightarrow> if ch = lit then map_option (\<lambda>y. (g, y)) (k r') else None)
       (plus_splits p s)"

text \<open>The last group, \<^verbatim>\<open>(.+)$\<close>, takes the whole rest of the input.\<close>

definition group_end :: "string \<Rightarrow> string option" where
  "group_end s = (if s \<noteq> [] \<and> list_all dot s then Some s else None)"

definition connection_match :: "string \<Rightarrow> (string \<times> string \<times> string \<times> string \<times> string) option" where
  "connection_match connectionString =
     (if line_separator_in connectionString then None
      else group_then dot CHR ''/''
             (group_then dot CHR ''@''
                (group_then dot CHR '':''
                   (group_then is_digit CHR ''/'' group_end)))
             connectionString)"

text \<open>
  The connection string of a user, a password, a host, a port and a service name, in the
  format that the usage message gives: \<^verbatim>\<open>user/password@host:port/service_name\<close>.
\<close>

definition connection_string :: "string \<Rightarrow> string \<Rightarrow> string \<Rightarrow> string \<Rightarrow> string \<Rightarrow> string" where
  "connection_string user password host port serviceName =
     user @ ''/'' @ password @ ''@'' @ host @ '':'' @ port @ ''/'' @ serviceName"

subsection \<open>The URL class\<close>

text \<open>
  \<^verbatim>\<open>URL\<close> is the platform's class, a parameter of the model: \<open>url_new\<close> is
  \<^verbatim>\<open>new URL(s)\<close>, \<open>url_new_base\<close> is \<^verbatim>\<open>new URL(s, base)\<close>; both throw a
  TypeError on input they do not accept.
\<close>

record 'u url_api =
  url_new :: "string \<Rightarrow> js_error + 'u"
  url_new_base :: "string \<Rightarrow> 'u \<Rightarrow> js_error + 'u"
  href :: "'u \<Rightarrow> string"

subsection \<open>Startup\<close>

text \<open>
  How the module's top level ends: \<^verbatim>\<open>process.exit(1)\<close> after the lines written to
  the error stream, an uncaught exception of \<^verbatim>\<open>new URL\<close>, or the constants the
  handlers use: \<open>Started user password host port serviceName resourceBaseUrl\<close>.
\<close>

datatype 'u startup_result =
    Exit "string list"
  | Uncaught js_error
  | Started string string string string string 'u

definition startup :: "'u url_api \<Rightarrow> string list \<Rightarrow> 'u startup_result" where
  "startup url args =
     (case args of
        [] \<Rightarrow>
          Exit [''Please provide a database connection string as a command-line argument'',
                ''Format: usuario/contrase'' @ [CHR 0xC3, CHR 0xB1] @ ''a@host:puerto/servicio'']
      | connectionString # rest \<Rightarrow>
          (case connection_match connectionString of
             None \<Rightarrow>
               Exit [''Invalid connection string format. Use: user/password@host:port/service_name'']
           | Some (user, password, host, port, serviceName) \<Rightarrow>
               (case url_new url (''oracle://'' @ user @ ''@'' @ host @ '':'' @ port @ ''/'' @ serviceName) of
                  Inl err \<Rightarrow> Uncaught err
                | Inr resourceBaseUrl \<Rightarrow>
                    Started user password host port serviceName resourceBaseUrl)))"

subsection \<open>ListResources\<close>

definition SCHEMA_PATH :: string where
  "SCHEMA_PATH = ''schema''"

definition list_tables_sql :: string where
  "list_tables_sql =
     ''SELECT table_name '' @ [CHR 0x0A]
     @ ''       FROM user_tables '' @ [CHR 0x0A]
     @ ''       UNION ALL '' @ [CHR 0x0A]
     @ ''       SELECT table_name '' @ [CHR 0x0A]
     @ ''       FROM all_tables '' @ [CHR 0x0A]
     @ ''       WHERE owner != USER '' @ [CHR 0x0A]
     @ ''       AND (owner, table_name) IN ('' @ [CHR 0x0A]
     @ ''         SELECT table_owner, table_name '' @ [CHR 0x0A]
     @ ''         FROM user_tab_privs '' @ [CHR 0x0A]
     @ ''         WHERE privilege IN ('' @ [CHR 0x27] @ ''SELECT'' @ [CHR 0x27] @ '', ''
         @ [CHR 0x27] @ ''INSERT'' @ [CHR 0x27] @ '', '' @ [CHR 0x27] @ ''UPDATE'' @ [CHR 0x27] @ '', ''
         @ [CHR 0x27] @ ''DELETE'' @ [CHR 0x27] @ '', '' @ [CHR 0x27] @ ''ALTER'' @ [CHR 0x27] @ '', ''
         @ [CHR 0x27] @ ''ALL'' @ [CHR 0x27] @ '')'' @ [CHR 0x0A]
     @ ''       )'' @ [CHR 0x0A]
     @ ''       ORDER BY table_name''"

record resource =
  uri :: string
  mimeType :: string
  resource_name :: string

text \<open>\<^verbatim>\<open>rows.map(f)\<close> for an \<open>f\<close> that may throw: the first exception ends the map.\<close>

fun map_throwing :: "('a \<Rightarrow> js_error + 'b) \<Rightarrow> 'a list \<Rightarrow> js_error + 'b list" where
  "map_throwing f [] = Inr []"
| "map_throwing f (x # xs) =
     (case f x of
        Inl err \<Rightarrow> Inl err
      | Inr y \<Rightarrow> (case map_throwing f xs of Inl err \<Rightarrow> Inl err | Inr ys \<Rightarrow> Inr (y # ys)))"

definition row_resource :: "'u url_api \<Rightarrow> 'u \<Rightarrow> jsval \<Rightarrow> js_error + resource" where
  "row_resource url resourceBaseUrl row =
     (case js_prop row ''TABLE_NAME'' of
        Inl err \<Rightarrow> Inl err
      | Inr table \<Rightarrow>
          (case url_new_base url (js_to_string table @ ''/'' @ SCHEMA_PATH) resourceBaseUrl of
             Inl err \<Rightarrow> Inl err
           | Inr u \<Rightarrow>
               Inr \<lparr>uri = href url u,
                    mimeType = ''application/json'',
                    resource_name = [CHR 0x22] @ js_to_string table @ [CHR 0x22] @ '' database schema''\<rparr>))"

definition list_resources_callback ::
  "'d driver \<Rightarrow> 'u url_api \<Rightarrow> 'u \<Rightarrow> conn \<Rightarrow> 'd world \<Rightarrow> (js_error + resource list) \<times> 'd world" where
  "list_resources_callback drv url resourceBaseUrl connection w =
     (case execute drv connection (JStr list_tables_sql) [] [] w of
        (Inl err, w1) \<Rightarrow> (Inl err, w1)
      | (Inr result, w1) \<Rightarrow>
          (case rows result of
             None \<Rightarrow> (Inl (TypeError ''Cannot read properties of undefined (reading map)''), w1)
           | Some rs \<Rightarrow> (map_throwing (row_resource url resourceBaseUrl) rs, w1)))"

definition list_resources ::
  "'d driver \<Rightarrow> 'u url_api \<Rightarrow> 'u \<Rightarrow> 'd world \<Rightarrow> (js_error + resource list) \<times> 'd world" where
  "list_resources drv url resourceBaseUrl w =
     withConnection drv (list_resources_callback drv url resourceBaseUrl) w"

text \<open>
  A ListResources request to the process started with the command-line arguments
  \<open>args\<close>; \<open>None\<close> when the process did not start.
\<close>

definition started_list_resources ::
  "'d driver \<Rightarrow> 'u url_api \<Rightarrow> string list \<Rightarrow> 'd world
     \<Rightarrow> ((js_error + resource list) \<times> 'd world) option" where
  "started_list_resources drv url args w =
     (case startup url args of
        Started user password host port serviceName resourceBaseUrl \<Rightarrow>
          Some (list_resources drv url resourceBaseUrl w)
      | Exit lines \<Rightarrow> None
      | Uncaught err \<Rightarrow> None)"

section \<open>Observations on the trace\<close>

text \<open>The events a handler added to the trace, between the worlds before and after.\<close>

definition new_events :: "'d world \<Rightarrow> 'd world \<Rightarrow> event list" where
  "new_events w w' = drop (length (trace w)) (trace w')"

fun is_close :: "event \<Rightarrow> bool" where
  "is_close (EvClose c r) = True"
| "is_close ev = False"

text \<open>The statements executed, in order: the SQL text, the bind values and the options of each.\<close>

fun statements :: "event list \<Rightarrow> (jsval \<times> jsval list \<times> exec_option list) list" where
  "statements [] = []"
| "statements (EvExecute c sql binds opts r # evs) = (sql, binds, opts) # statements evs"
| "statements (ev # evs) = statements evs"

text \<open>
  The pool's side of the trace: the connections handed out and the releases. \<open>held\<close>
  counts the connections handed out and not yet released.
\<close>

fun is_pool_event :: "event \<Rightarrow> bool" where
  "is_pool_event (EvGetConnection (Inr c)) = True"
| "is_pool_event (EvClose c r) = True"
| "is_pool_event ev = False"

definition pool_events :: "'d world \<Rightarrow> event list" where
  "pool_events w = filter is_pool_event (trace w)"

definition held :: "'d world \<Rightarrow> int" where
  "held w = int (length (filter (\<lambda>ev. is_pool_event ev \<and> \<not> is_close ev) (trace w)))
            - int (length (filter is_close (trace w)))"

text \<open>Tool calls served one after the other, each in the world the one before has left.\<close>

fun serve :: "case_table \<Rightarrow> 'd driver \<Rightarrow> string \<Rightarrow> request list \<Rightarrow> 'd world \<Rightarrow> 'd world" where
  "serve tbl drv user [] w = w"
| "serve tbl drv user (req # reqs) w = serve tbl drv user reqs (snd (call_tool tbl drv user req w))"

section \<open>What the driver is assumed to do\<close>

text \<open>
  \<^verbatim>\<open>maxRows\<close>: a query executed with the option \<^verbatim>\<open>{maxRows: n}\<close>, \<open>n\<close> positive,
  resolves to at most \<open>n\<close> rows.
\<close>

definition honours_maxRows :: "'d driver \<Rightarrow> bool" where
  "honours_maxRows drv =
     (\<forall>c sql binds n d result rs.
        0 < n \<and> fst (conn_execute drv c sql binds [MaxRows (JNum n)] d) = Inr result
          \<and> rows result = Some rs
        \<longrightarrow> int (length rs) \<le> n)"

text \<open>
  Transactions. \<open>committed\<close> reads the committed data off the driver state and
  \<open>clean c\<close> says that session \<open>c\<close> holds no uncommitted change. A transactional driver
  leaves the committed data as they are when a connection is borrowed or released and
  when \<^verbatim>\<open>SET TRANSACTION READ ONLY\<close> or \<^verbatim>\<open>ROLLBACK\<close> is executed; a rollback that
  succeeds leaves the session clean, and releasing a clean session keeps it clean.
\<close>

definition transactional :: "'d driver \<Rightarrow> ('d \<Rightarrow> 'c) \<Rightarrow> (conn \<Rightarrow> 'd \<Rightarrow> bool) \<Rightarrow> bool" where
  "transactional drv committed clean =
     ((\<forall>d. committed (snd (pool_getConnection drv d)) = committed d)
      \<and> (\<forall>c d. committed (snd (conn_close drv c d)) = committed d)
      \<and> (\<forall>c d. committed (snd (conn_execute drv c (JStr ''SET TRANSACTION READ ONLY'') [] [] d))
                  = committed d)
      \<and> (\<forall>c d. committed (snd (conn_execute drv c (JStr ''ROLLBACK'') [] [] d)) = committed d)
      \<and> (\<forall>c d ok. fst (conn_execute drv c (JStr ''ROLLBACK'') [] [] d) = Inr ok
                  \<longrightarrow> clean c (snd (conn_execute drv c (JStr ''ROLLBACK'') [] [] d)))
      \<and> (\<forall>c d. clean c d \<longrightarrow> clean c (snd (conn_close drv c d))))"

text \<open>
  A statement commits nothing by itself when, executed without \<^verbatim>\<open>autoCommit: true\<close>,
  it leaves the committed data as they are: its changes, if any, stay in the
  transaction. Data definition statements and blocks that issue \<^verbatim>\<open>COMMIT\<close> are the
  statements that do commit by themselves.
\<close>

definition commits_nothing_itself :: "'d driver \<Rightarrow> ('d \<Rightarrow> 'c) \<Rightarrow> jsval \<Rightarrow> bool" where
  "commits_nothing_itself drv committed sql =
     (\<forall>c binds opts d.
        AutoCommit True \<notin> set opts
        \<longrightarrow> committed (snd (conn_execute drv c sql binds opts d)) = committed d)"

section \<open>Letter case\<close>

text \<open>
  Two characters are the same letter when they are equal or one is the upper-case form of
  the other, among the letters a to z; two strings differ only in the case of these
  letters when they are so position by position.
\<close>

definition same_letter :: "char \<Rightarrow> char \<Rightarrow> bool" where
  "same_letter a b = (a = b \<or> upper_char a = b \<or> upper_char b = a)"

definition differ_only_in_ascii_case :: "string \<Rightarrow> string \<Rightarrow> bool" where
  "differ_only_in_ascii_case s t = list_all2 same_letter s t"

section \<open>Sample drivers\<close>

text \<open>
  Concrete drivers on which the theorems and the handlers are evaluated. The first
  answers every call from fixed replies: \<open>acq\<close> to \<^verbatim>\<open>getConnection\<close>, \<open>reply sql binds\<close>
  to \<^verbatim>\<open>execute\<close> (cut to \<^verbatim>\<open>maxRows\<close> rows) and \<open>cl\<close> to \<^verbatim>\<open>close\<close>.
\<close>

definition limit_rows :: "exec_option list \<Rightarrow> js_error + exec_result \<Rightarrow> js_error + exec_result" where
  "limit_rows opts r =
     (case r of
        Inl err \<Rightarrow> Inl err
      | Inr result \<Rightarrow>
          (case opts of
             [MaxRows (JNum n)] \<Rightarrow>
               if 0 < n then Inr (result\<lparr>rows := map_option (take (nat n)) (rows result)\<rparr>)
               else Inr result
           | other \<Rightarrow> Inr result))"

definition stub_driver ::
  "(js_error + conn) \<Rightarrow> (jsval \<Rightarrow> jsval list \<Rightarrow> js_error + exec_result) \<Rightarrow> (js_error + unit)
     \<Rightarrow> unit driver" where
  "stub_driver acq reply cl =
     \<lparr>pool_getConnection = (\<lambda>d. (acq, d)),
      conn_execute = (\<lambda>c sql binds opts d. (limit_rows opts (reply sql binds), d)),
      conn_close = (\<lambda>c d. (cl, d))\<rparr>"

text \<open>
  A case table for evaluation on ASCII names, where it is never consulted: it leaves
  text outside ASCII as it is.
\<close>

definition plain_table :: case_table where
  "plain_table run = run"

text \<open>
  A case table that agrees with Unicode's on the two names it is used on: the upper-case
  form of the small sharp s (U+00DF, the bytes C3 9F) is SS, and the capital sharp s
  (U+1E9E, the bytes E1 BA 9E) is its own upper-case form.
\<close>

definition sharp_s_table :: case_table where
  "sharp_s_table run = (if run = [CHR 0xC3, CHR 0x9F] then ''SS'' else run)"

definition world0 :: "unit world" where
  "world0 = \<lparr>db = (), trace = []\<rparr>"

text \<open>A statement that is not a query resolves to neither rows nor a row count.\<close>

definition done_result :: exec_result where
  "done_result = \<lparr>rows = None, rowsAffected = None\<rparr>"

definition rows_result :: "jsval list \<Rightarrow> exec_result" where
  "rows_result rs = \<lparr>rows = Some rs, rowsAffected = None\<rparr>"

text \<open>
  The second keeps a ledger: the committed statements and the session's working copy.
  \<^verbatim>\<open>ROLLBACK\<close> resets the working copy to the committed one and the read-only
  statement changes nothing. Any other statement is appended to the working copy; the
  working copy is committed at once under \<^verbatim>\<open>autoCommit: true\<close>, and also when the
  statement is a block that opens with \<^verbatim>\<open>COMMIT\<close>, which commits by itself whatever
  the options are. Releasing the connection changes nothing. The session is clean when
  the working copy is the committed one.
\<close>

definition opens_with_commit :: "jsval \<Rightarrow> bool" where
  "opens_with_commit sql = (case sql of JStr s \<Rightarrow> take 13 s = ''BEGIN COMMIT;'' | other \<Rightarrow> False)"

definition ledger_driver :: "(string list \<times> string list) driver" where
  "ledger_driver =
     \<lparr>pool_getConnection = (\<lambda>d. (Inr 0, d)),
      conn_execute = (\<lambda>c sql binds opts (committed, working).
         if sql = JStr ''ROLLBACK'' then (Inr done_result, (committed, committed))
         else if sql = JStr ''SET TRANSACTION READ ONLY'' then (Inr done_result, (committed, working))
         else if AutoCommit True \<in> set opts \<or> opens_with_commit sql
           then (Inr done_result, (working @ [js_to_string sql], working @ [js_to_string sql]))
           else (Inr done_result, (committed, working @ [js_to_string sql]))),
      conn_close = (\<lambda>c d. (Inr (), d))\<rparr>"

definition ledger_clean :: "conn \<Rightarrow> string list \<times> string list \<Rightarrow> bool" where
  "ledger_clean c d = (snd d = fst d)"

text \<open>
  The third keeps a user catalogue: the count query answers from it, \<^verbatim>\<open>CREATE USER\<close>
  adds the name that follows to it, every other statement resolves without effect.
\<close>

definition catalog_driver :: "string list driver" where
  "catalog_driver =
     \<lparr>pool_getConnection = (\<lambda>users. (Inr 0, users)),
      conn_execute = (\<lambda>c sql binds opts users.
         case sql of
           JStr s \<Rightarrow>
             if s = user_count_sql then
               (case binds of
                  [JStr u] \<Rightarrow>
                    (Inr (rows_result [JObj [(''EXIST_COUNT'', JNum (int (count_list users u)))]]), users)
                | other \<Rightarrow> (Inl (DriverError ''ORA-01008: not all variables bound'' (Some 1008)), users))
             else if take 12 s = ''CREATE USER '' then
               (Inr done_result, takeWhile (\<lambda>ch. ch \<noteq> CHR '' '') (drop 12 s) # users)
             else (Inr done_result, users)
         | other \<Rightarrow> (Inl (DriverError ''NJS-005: invalid value for parameter 1'' None), users)),
      conn_close = (\<lambda>c users. (Inr (), users))\<rparr>"

text \<open>
  A stand-in for the URL class on the addresses used below, which it takes as they are
  written: a relative reference is resolved against a base by replacing what follows the
  last slash of the base, as the URL standard has it.
\<close>

definition segment_url :: "string url_api" where
  "segment_url =
     \<lparr>url_new = (\<lambda>s. Inr s),
      url_new_base = (\<lambda>s base. Inr (rev (dropWhile (\<lambda>ch. ch \<noteq> CHR ''/'') (rev base)) @ s)),
      href = (\<lambda>u. u)\<rparr>"

section \<open>Driver calls and the trace\<close>

lemma execute_trace:
  "execute drv c sql binds opts w = (r, w') \<Longrightarrow> trace w' = trace w @ [EvExecute c sql binds opts r]"
  by (auto simp: execute_def split: prod.splits)

lemma execute_db:
  "execute drv c sql binds opts w = (r, w') \<Longrightarrow> db w' = snd (conn_execute drv c sql binds opts (db w))"
  by (auto simp: execute_def split: prod.splits)

lemma execute_fst:
  "execute drv c sql binds opts w = (r, w') \<Longrightarrow> r = fst (conn_execute drv c sql binds opts (db w))"
  by (auto simp: execute_def split: prod.splits)

lemma execute_run:
  "execute drv c sql binds opts w =
     (fst (conn_execute drv c sql binds opts (db w)),
      w\<lparr>db := snd (conn_execute drv c sql binds opts (db w)),
        trace := trace w @ [EvExecute c sql binds opts (fst (conn_execute drv c sql binds opts (db w)))]\<rparr>)"
  by (simp add: execute_def split: prod.splits)

lemma close_eq:
  "close drv c w = (r, w') \<Longrightarrow>
     r = fst (conn_close drv c (db w)) \<and> db w' = snd (conn_close drv c (db w))
     \<and> trace w' = trace w @ [EvClose c r]"
  by (auto simp: close_def split: prod.splits)

lemma console_error_eq [simp]:
  "trace (console_error l e w) = trace w @ [EvConsoleError l e]"
  "db (console_error l e w) = db w"
  by (simp_all add: console_error_def)

lemma new_events_append: "trace w' = trace w @ xs \<Longrightarrow> new_events w w' = xs"
  by (simp add: new_events_def)

lemma statements_append [simp]: "statements (xs @ ys) = statements xs @ statements ys"
  by (induction xs rule: statements.induct) auto

lemma getConnection_acquired:
  "fst (pool_getConnection drv (db w)) = Inr c \<Longrightarrow>
     \<exists>w1. getConnection drv w = (Inr c, w1) \<and> trace w1 = trace w @ [EvGetConnection (Inr c)]
        \<and> db w1 = snd (pool_getConnection drv (db w))"
  by (auto simp: getConnection_def split: prod.splits)

lemmas run_defs = call_tool_def withConnection_def getConnection_def execute_def close_def
  console_error_def rollback_def query_callback_def execute_callback_def
  check_user_exists_callback_def create_user_callback_def grant_privileges_callback_def
  get_table_data_callback_def get_table_data_try_def arg_def new_events_def
  stub_driver_def limit_rows_def world0_def done_result_def rows_result_def

section \<open>The scope of a borrowed connection\<close>

lemma withConnection_acquired:
  assumes g: "getConnection drv w = (Inr c, w1)" and cb: "callback c w1 = (res, w2)"
  shows "\<exists>post. fst (withConnection drv callback w) = res
         \<and> trace (snd (withConnection drv callback w)) = trace w2 @ post
         \<and> statements post = []
         \<and> db (snd (withConnection drv callback w)) = snd (conn_close drv c (db w2))"
proof -
  define w3 where "w3 = (case res of Inl err \<Rightarrow> console_error ''Database operation error:'' err w2 | Inr v \<Rightarrow> w2)"
  obtain cl w4 where c: "close drv c w3 = (cl, w4)" by (cases "close drv c w3")
  have d3: "db w3 = db w2" by (cases res) (simp_all add: w3_def)
  from close_eq[OF c] have t4: "trace w4 = trace w3 @ [EvClose c cl]"
    and d4: "db w4 = snd (conn_close drv c (db w2))" by (simp_all add: d3)
  have wc: "withConnection drv callback w =
      (res, case cl of Inl err \<Rightarrow> console_error ''Error closing connection:'' err w4 | Inr u \<Rightarrow> w4)"
    using g cb c by (simp add: withConnection_def w3_def)
  have t3: "\<exists>p. trace w3 = trace w2 @ p \<and> statements p = []"
    by (cases res) (simp_all add: w3_def)
  then obtain p where p: "trace w3 = trace w2 @ p" "statements p = []" by blast
  show ?thesis
    by (cases cl) (simp_all add: wc t4 d4 p)
qed

lemma withConnection_result:
  "fst (withConnection drv callback w) = Inr v \<Longrightarrow> \<exists>c w1 w2. callback c w1 = (Inr v, w2)"
  by (auto simp: withConnection_def Let_def split: prod.splits sum.splits)

lemma withConnection_envelope:
  assumes g: "fst (pool_getConnection drv (db w)) = Inr c"
    and cb: "\<And>w1. \<exists>env w'. callback c w1 = (Inr env, w')"
  shows "\<exists>env. fst (withConnection drv callback w) = Inr env"
proof -
  from getConnection_acquired[OF g] obtain w1 where g1: "getConnection drv w = (Inr c, w1)" by blast
  from cb[of w1] obtain env w2 where c2: "callback c w1 = (Inr env, w2)" by blast
  from withConnection_acquired[where callback = callback, OF g1 c2] show ?thesis by blast
qed

lemma rollback_eq:
  "\<exists>r3 post. trace (rollback drv c w) = trace w @ EvExecute c (JStr ''ROLLBACK'') [] [] r3 # post
      \<and> statements post = []
      \<and> (case r3 of Inl err \<Rightarrow> post = [EvConsoleError ''Error during rollback:'' err] | Inr ok \<Rightarrow> post = [])
      \<and> db (rollback drv c w) = snd (conn_execute drv c (JStr ''ROLLBACK'') [] [] (db w))
      \<and> r3 = fst (conn_execute drv c (JStr ''ROLLBACK'') [] [] (db w))"
proof -
  obtain r3 w1 where e: "execute drv c (JStr ''ROLLBACK'') [] [] w = (r3, w1)"
    by (cases "execute drv c (JStr ''ROLLBACK'') [] [] w")
  note t = execute_trace[OF e] and d = execute_db[OF e] and f = execute_fst[OF e]
  show ?thesis
  proof (cases r3)
    case (Inl err)
    then have "rollback drv c w = console_error ''Error during rollback:'' err w1"
      by (simp add: rollback_def e)
    then show ?thesis using t d f[symmetric] Inl
      by (intro exI[of _ r3] exI[of _ "[EvConsoleError ''Error during rollback:'' err]"]) simp
  next
    case (Inr ok)
    then have "rollback drv c w = w1" by (simp add: rollback_def e)
    then show ?thesis using t d f[symmetric] Inr
      by (intro exI[of _ r3] exI[of _ "[]"]) simp
  qed
qed

text \<open>
  Claim C3: for every outcome of the callback passed to \<^verbatim>\<open>withConnection\<close>, normal
  return or thrown error, the borrowed connection is released exactly once before
  \<^verbatim>\<open>withConnection\<close> returns or rethrows, and a failure during release is logged
  without replacing the callback's original result or error.

  With \<open>w2\<close> the world the callback leaves: the outcome of \<^verbatim>\<open>withConnection\<close> is the
  callback's, the events added after the callback hold exactly one release, that of the
  borrowed connection, and when the release fails the last event is the line logging it.
\<close>

theorem withConnection_releases_once:
  assumes g: "getConnection drv w = (Inr c, w1)" and cb: "callback c w1 = (res, w2)"
  shows "\<exists>cl suffix.
           fst (withConnection drv callback w) = res
         \<and> trace (snd (withConnection drv callback w)) = trace w2 @ suffix
         \<and> filter is_close suffix = [EvClose c cl]
         \<and> (case cl of
              Inl err \<Rightarrow> last suffix = EvConsoleError ''Error closing connection:'' err
            | Inr u \<Rightarrow> last suffix = EvClose c cl)"
proof -
  define w3 where "w3 = (case res of Inl err \<Rightarrow> console_error ''Database operation error:'' err w2 | Inr v \<Rightarrow> w2)"
  obtain cl w4 where c: "close drv c w3 = (cl, w4)" by (cases "close drv c w3")
  from close_eq[OF c] have t4: "trace w4 = trace w3 @ [EvClose c cl]" by simp
  have wc: "withConnection drv callback w =
      (res, case cl of Inl err \<Rightarrow> console_error ''Error closing connection:'' err w4 | Inr u \<Rightarrow> w4)"
    using g cb c by (simp add: withConnection_def w3_def)
  show ?thesis
  proof (cases res)
    case (Inl e)
    then have t3: "trace w3 = trace w2 @ [EvConsoleError ''Database operation error:'' e]"
      by (simp add: w3_def)
    show ?thesis
      by (cases cl) (auto simp: wc t4 t3)
  next
    case (Inr v)
    then have t3: "trace w3 = trace w2" by (simp add: w3_def)
    show ?thesis
      by (cases cl) (auto simp: wc t4 t3)
  qed
qed

theorem withConnection_releases_once_witness:
  "getConnection
      (stub_driver (Inr 7) (\<lambda>sql binds. Inr done_result)
         (Inl (DriverError ''ORA-03113: end-of-file on communication channel'' (Some 3113))))
      world0
     = (Inr 7, \<lparr>db = (), trace = [EvGetConnection (Inr 7)]\<rparr>)
   \<and> (\<exists>cl suffix.
         fst (withConnection
                (stub_driver (Inr 7) (\<lambda>sql binds. Inr done_result)
                   (Inl (DriverError ''ORA-03113: end-of-file on communication channel'' (Some 3113))))
                (\<lambda>c w. (Inl (Error ''handler failed'') :: js_error + envelope, w)) world0)
           = Inl (Error ''handler failed'')
       \<and> trace (snd (withConnection
                (stub_driver (Inr 7) (\<lambda>sql binds. Inr done_result)
                   (Inl (DriverError ''ORA-03113: end-of-file on communication channel'' (Some 3113))))
                (\<lambda>c w. (Inl (Error ''handler failed'') :: js_error + envelope, w)) world0))
           = [EvGetConnection (Inr 7)] @ suffix
       \<and> filter is_close suffix = [EvClose 7 cl]
       \<and> (case cl of
            Inl err \<Rightarrow> last suffix = EvConsoleError ''Error closing connection:'' err
          | Inr u \<Rightarrow> last suffix = EvClose 7 cl))"
proof -
  let ?drv = "stub_driver (Inr 7) (\<lambda>sql binds. Inr done_result)
         (Inl (DriverError ''ORA-03113: end-of-file on communication channel'' (Some 3113)))"
  let ?cb = "\<lambda>(c::conn) (w::unit world). (Inl (Error ''handler failed'') :: js_error + envelope, w)"
  let ?w1 = "\<lparr>db = (), trace = [EvGetConnection (Inr 7)]\<rparr>"
  have g: "getConnection ?drv world0 = (Inr 7, ?w1)"
    by (simp add: getConnection_def stub_driver_def world0_def)
  have cb: "?cb 7 ?w1 = (Inl (Error ''handler failed''), ?w1)" by simp
  from withConnection_releases_once[where callback = ?cb, OF g cb] g show ?thesis by simp
qed

section \<open>Every tool call returns its connection\<close>

lemma pool_events_execute [simp]:
  "pool_events (snd (execute drv c sql binds opts w)) = pool_events w"
  by (simp add: execute_run pool_events_def)

lemma pool_events_console_error [simp]:
  "pool_events (console_error l e w) = pool_events w"
  by (simp add: pool_events_def)

lemma execute_pool_events:
  "execute drv c sql binds opts w = (r, w') \<Longrightarrow> pool_events w' = pool_events w"
  using pool_events_execute[of drv c sql binds opts w] by simp

lemma pool_events_rollback [simp]: "pool_events (rollback drv c w) = pool_events w"
  by (auto simp: rollback_def split: prod.splits sum.splits dest!: execute_pool_events)

lemma pool_events_query_callback [simp]:
  "pool_events (snd (query_callback drv sql c w)) = pool_events w"
  by (auto simp: query_callback_def Let_def split: prod.splits sum.splits dest!: execute_pool_events)

lemma pool_events_execute_callback [simp]:
  "pool_events (snd (execute_callback drv sql c w)) = pool_events w"
  by (auto simp: execute_callback_def split: prod.splits sum.splits dest!: execute_pool_events)

lemma pool_events_check_user_exists_callback [simp]:
  "pool_events (snd (check_user_exists_callback drv u c w)) = pool_events w"
  by (auto simp: check_user_exists_callback_def split: prod.splits sum.splits dest!: execute_pool_events)

lemma pool_events_create_user_callback [simp]:
  "pool_events (snd (create_user_callback drv u p ts tts c w)) = pool_events w"
  by (auto simp: create_user_callback_def Let_def split: prod.splits sum.splits dest!: execute_pool_events)

lemma pool_events_grant_loop [simp]:
  "pool_events (snd (grant_loop drv c u ps acc w)) = pool_events w"
proof (induction ps arbitrary: acc w)
  case Nil
  then show ?case by simp
next
  case (Cons p ps)
  then show ?case
    by (auto split: prod.splits dest!: execute_pool_events)
qed

lemma pool_events_grant_privileges_callback [simp]:
  "pool_events (snd (grant_privileges_callback drv u ps c w)) = pool_events w"
proof -
  have g: "grant_loop drv c u xs [] w1 = (res, w2) \<Longrightarrow> pool_events w2 = pool_events w1" for xs w1 res w2
    using pool_events_grant_loop[of drv c u xs "[]" w1] by simp
  show ?thesis
    by (auto simp: grant_privileges_callback_def Let_def split: prod.splits sum.splits
          dest!: execute_pool_events g)
qed

lemma pool_events_get_table_data_try [simp]:
  "pool_events (snd (get_table_data_try tbl drv usr t l c w)) = pool_events w"
  by (auto simp: get_table_data_try_def split: prod.splits sum.splits option.splits list.splits
        dest!: execute_pool_events)

lemma pool_events_get_table_data_callback [simp]:
  "pool_events (snd (get_table_data_callback tbl drv usr t l c w)) = pool_events w"
proof -
  have g: "get_table_data_try tbl drv usr t l c w = (res, w2) \<Longrightarrow> pool_events w2 = pool_events w" for res w2
    using pool_events_get_table_data_try[of tbl drv usr t l c w] by simp
  show ?thesis
    by (auto simp: get_table_data_callback_def split: prod.splits sum.splits dest!: g)
qed

lemma withConnection_pool_events:
  assumes cb: "\<And>c w1. pool_events (snd (callback c w1)) = pool_events w1"
  shows "pool_events (snd (withConnection drv callback w)) = pool_events w
       \<or> (\<exists>c cl. pool_events (snd (withConnection drv callback w)) =
                    pool_events w @ [EvGetConnection (Inr c), EvClose c cl])"
proof (cases "getConnection drv w")
  case (Pair r w1)
  show ?thesis
  proof (cases r)
    case (Inl err)
    with Pair show ?thesis
      by (auto simp: withConnection_def getConnection_def pool_events_def console_error_def
            split: prod.splits)
  next
    case (Inr c)
    from Pair Inr have p1: "pool_events w1 = pool_events w @ [EvGetConnection (Inr c)]"
      by (auto simp: getConnection_def pool_events_def split: prod.splits)
    obtain res w2 where c2: "callback c w1 = (res, w2)" by (cases "callback c w1")
    with cb[of c w1] have p2: "pool_events w2 = pool_events w1" by simp
    define w3 where "w3 = (case res of Inl err \<Rightarrow> console_error ''Database operation error:'' err w2 | Inr v \<Rightarrow> w2)"
    have p3: "pool_events w3 = pool_events w2" by (cases res) (simp_all add: w3_def)
    obtain cl w4 where c4: "close drv c w3 = (cl, w4)" by (cases "close drv c w3")
    from close_eq[OF c4] have p4: "pool_events w4 = pool_events w3 @ [EvClose c cl]"
      by (simp add: pool_events_def)
    have wc: "withConnection drv callback w =
      (res, case cl of Inl err \<Rightarrow> console_error ''Error closing connection:'' err w4 | Inr u \<Rightarrow> w4)"
      using Pair Inr c2 c4 by (simp add: withConnection_def w3_def)
    have "pool_events (snd (withConnection drv callback w)) = pool_events w4"
      by (cases cl) (simp_all add: wc)
    then show ?thesis by (simp add: p4 p3 p2 p1)
  qed
qed

lemma withConnection_pool_events_acquired:
  assumes cb: "\<And>c w1. pool_events (snd (callback c w1)) = pool_events w1"
    and g: "fst (pool_getConnection drv (db w)) = Inr c"
  shows "\<exists>cl. pool_events (snd (withConnection drv callback w)) =
                pool_events w @ [EvGetConnection (Inr c), EvClose c cl]"
proof -
  from getConnection_acquired[OF g] obtain w1 where
    g1: "getConnection drv w = (Inr c, w1)" and t1: "trace w1 = trace w @ [EvGetConnection (Inr c)]"
    by blast
  have p1: "pool_events w1 = pool_events w @ [EvGetConnection (Inr c)]"
    by (simp add: pool_events_def t1)
  obtain res w2 where c2: "callback c w1 = (res, w2)" by (cases "callback c w1")
  with cb[of c w1] have p2: "pool_events w2 = pool_events w1" by simp
  define w3 where "w3 = (case res of Inl err \<Rightarrow> console_error ''Database operation error:'' err w2 | Inr v \<Rightarrow> w2)"
  have p3: "pool_events w3 = pool_events w2" by (cases res) (simp_all add: w3_def)
  obtain cl w4 where c4: "close drv c w3 = (cl, w4)" by (cases "close drv c w3")
  from close_eq[OF c4] have p4: "pool_events w4 = pool_events w3 @ [EvClose c cl]"
    by (simp add: pool_events_def)
  have wc: "withConnection drv callback w =
    (res, case cl of Inl err \<Rightarrow> console_error ''Error closing connection:'' err w4 | Inr u \<Rightarrow> w4)"
    using g1 c2 c4 by (simp add: withConnection_def w3_def)
  have "pool_events (snd (withConnection drv callback w)) = pool_events w4"
    by (cases cl) (simp_all add: wc)
  then show ?thesis by (simp add: p4 p3 p2 p1)
qed

text \<open>
  The same at the dispatcher: a tool call borrows at most one connection, and when it
  has borrowed one it has released that connection, once, by the time it returns or
  throws. No handler touches the pool outside \<^verbatim>\<open>withConnection\<close>.
\<close>

lemma call_tool_borrow_release:
  "pool_events (snd (call_tool tbl drv user req w)) = pool_events w
   \<or> (\<exists>c cl. pool_events (snd (call_tool tbl drv user req w)) =
                pool_events w @ [EvGetConnection (Inr c), EvClose c cl])"
  unfolding call_tool_def Let_def
  by (auto split: sum.splits intro!: withConnection_pool_events)


lemma held_pool_events:
  "held w = int (length (filter (\<lambda>ev. \<not> is_close ev) (pool_events w)))
            - int (length (filter is_close (pool_events w)))"
proof -
  have "filter is_close (filter is_pool_event evs) = filter is_close evs" for evs
    by (induction evs rule: statements.induct) auto
  then show ?thesis
    by (simp add: held_def pool_events_def conj_commute)
qed

lemma call_tool_held: "held (snd (call_tool tbl drv user req w)) = held w"
  using call_tool_borrow_release[of tbl drv user req w]
  by (auto simp: held_pool_events)

text \<open>Over any sequence of calls the count of connections held comes back to where it was.\<close>

lemma serve_held: "held (serve tbl drv user reqs w) = held w"
  by (induction reqs arbitrary: w) (simp_all add: call_tool_held)

section \<open>Envelopes and exceptions\<close>

text \<open>
  The callbacks of \<^verbatim>\<open>execute\<close>, \<^verbatim>\<open>create_user\<close>, \<^verbatim>\<open>grant_privileges\<close> and
  \<^verbatim>\<open>get_table_data\<close> wrap their statements in \<^verbatim>\<open>try\<close>/\<^verbatim>\<open>catch\<close>: whatever the
  driver does, they return an envelope.
\<close>

lemma execute_callback_envelope: "\<exists>env w'. execute_callback drv sql c w = (Inr env, w')"
  by (simp add: execute_callback_def split: prod.splits sum.splits)

lemma create_user_callback_envelope:
  "\<exists>env w'. create_user_callback drv u p ts tts c w = (Inr env, w')"
  by (simp add: create_user_callback_def Let_def split: prod.splits sum.splits)

lemma grant_privileges_callback_envelope:
  "\<exists>env w'. grant_privileges_callback drv u ps c w = (Inr env, w')"
  by (simp add: grant_privileges_callback_def Let_def split: prod.splits sum.splits)

lemma get_table_data_callback_envelope:
  "\<exists>env w'. get_table_data_callback tbl drv usr t l c w = (Inr env, w')"
  by (simp add: get_table_data_callback_def split: prod.splits sum.splits)

text \<open>
  Claim C1, as the spec states it: for every tool invocation with a recognized operation
  name the outcome, success or driver-level failure, is returned as an envelope, and no
  raw driver exception passes the dispatcher except for argument-validation failures
  that abort before a connection is borrowed.

  The code does less. The callback of \<^verbatim>\<open>query\<close> is a \<^verbatim>\<open>try\<close>/\<^verbatim>\<open>finally\<close> with no
  \<^verbatim>\<open>catch\<close>, and \<^verbatim>\<open>withConnection\<close> rethrows what its callback throws: a statement
  the database rejects leaves the \<^verbatim>\<open>query\<close> handler as the driver's exception, after a
  connection was borrowed. And \<^verbatim>\<open>withConnection\<close> rethrows a failure of
  \<^verbatim>\<open>pool.getConnection\<close> for every tool.
\<close>

theorem envelope_invariant_counterexample:
  "call_tool plain_table
     (stub_driver (Inr 0)
        (\<lambda>sql binds. if sql = JStr ''SELECT * FROM missing''
                       then Inl (DriverError ''ORA-00942: table or view does not exist'' (Some 942))
                       else Inr done_result)
        (Inr ()))
     ''SCOTT'' \<lparr>name = ''query'', arguments = Some [''sql'' \<mapsto> JStr ''SELECT * FROM missing'']\<rparr> world0
   = (Inl (DriverError ''ORA-00942: table or view does not exist'' (Some 942)),
      \<lparr>db = (),
       trace = [EvGetConnection (Inr 0),
                EvExecute 0 (JStr ''SET TRANSACTION READ ONLY'') [] [] (Inr done_result),
                EvExecute 0 (JStr ''SELECT * FROM missing'') [] [MaxRows (JNum 1000)]
                  (Inl (DriverError ''ORA-00942: table or view does not exist'' (Some 942))),
                EvExecute 0 (JStr ''ROLLBACK'') [] [] (Inr done_result),
                EvConsoleError ''Database operation error:''
                  (DriverError ''ORA-00942: table or view does not exist'' (Some 942)),
                EvClose 0 (Inr ())]\<rparr>)
   \<and> fst (call_tool plain_table
          (stub_driver (Inl (DriverError ''NJS-040: connection request timeout'' None))
             (\<lambda>sql binds. Inr done_result) (Inr ()))
          ''SCOTT'' \<lparr>name = ''execute'', arguments = Some [''sql'' \<mapsto> JStr ''SELECT 1 FROM dual'']\<rparr> world0)
     = Inl (DriverError ''NJS-040: connection request timeout'' None)"
  by (simp add: run_defs)

text \<open>
  Claim C1, amended: for \<^verbatim>\<open>execute\<close>, \<^verbatim>\<open>create_user\<close>, \<^verbatim>\<open>grant_privileges\<close> and
  \<^verbatim>\<open>get_table_data\<close>, once the pool has handed out a connection (and, for the two user
  tools, the username is a string, so that the handler gets as far as borrowing one),
  every outcome is returned as an envelope, whatever the driver does to the statements,
  to the rollback and to the release.
\<close>

theorem caught_tools_return_envelope:
  assumes n: "name req \<in> {''execute'', ''create_user'', ''grant_privileges'', ''get_table_data''}"
    and g: "fst (pool_getConnection drv (db w)) = Inr c"
    and u: "name req \<in> {''create_user'', ''grant_privileges''} \<longrightarrow> (\<exists>s. arg req ''username'' = JStr s)"
  shows "\<exists>env. fst (call_tool tbl drv user req w) = Inr env"
proof -
  consider (e) "name req = ''execute''" | (c) "name req = ''create_user''"
    | (p) "name req = ''grant_privileges''" | (t) "name req = ''get_table_data''"
    using n by blast
  then show ?thesis
  proof cases
    case e
    then show ?thesis
      using withConnection_envelope[OF g, where callback = "execute_callback drv (arg req ''sql'')"]
      by (simp add: call_tool_def execute_callback_envelope)
  next
    case c
    with u obtain s where s: "arg req ''username'' = JStr s" by auto
    show ?thesis
      using withConnection_envelope[OF g, where callback = "create_user_callback drv (toUpperCase tbl s) (arg req ''password'')
                  (js_or (arg req ''tablespace'') (JStr ''USERS''))
                  (js_or (arg req ''tempTablespace'') (JStr ''TEMP''))"]
      by (simp add: call_tool_def c s create_user_callback_envelope)
  next
    case p
    with u obtain s where s: "arg req ''username'' = JStr s" by auto
    show ?thesis
      using withConnection_envelope[OF g, where callback = "grant_privileges_callback drv (toUpperCase tbl s) (arg req ''privileges'')"]
      by (simp add: call_tool_def p s grant_privileges_callback_envelope)
  next
    case t
    then show ?thesis
      using withConnection_envelope[OF g, where callback = "get_table_data_callback tbl drv user (arg req ''tableName'')
             (js_or (arg req ''limit'') (JNum 10))"]
      by (simp add: call_tool_def get_table_data_callback_envelope)
  qed
qed

theorem caught_tools_return_envelope_witness:
  "name \<lparr>name = ''create_user'',
      arguments = Some [''username'' \<mapsto> JStr ''scott'', ''password'' \<mapsto> JStr ''tiger'']\<rparr> \<in> {''execute'', ''create_user'', ''grant_privileges'', ''get_table_data''}
   \<and> arg \<lparr>name = ''create_user'',
      arguments = Some [''username'' \<mapsto> JStr ''scott'', ''password'' \<mapsto> JStr ''tiger'']\<rparr> ''username'' = JStr ''scott''
   \<and> fst (pool_getConnection
            (stub_driver (Inr 0)
        (\<lambda>sql binds.
           if sql = JStr user_count_sql then Inr (rows_result [JObj [(''EXIST_COUNT'', JNum 0)]])
           else Inl (DriverError ''ORA-01031: insufficient privileges'' (Some 1031)))
        (Inl (DriverError ''ORA-03113: end-of-file on communication channel'' (Some 3113))))
            (db world0)) = Inr 0
   \<and> (\<exists>env. fst (call_tool plain_table
            (stub_driver (Inr 0)
        (\<lambda>sql binds.
           if sql = JStr user_count_sql then Inr (rows_result [JObj [(''EXIST_COUNT'', JNum 0)]])
           else Inl (DriverError ''ORA-01031: insufficient privileges'' (Some 1031)))
        (Inl (DriverError ''ORA-03113: end-of-file on communication channel'' (Some 3113))))
            ''SYSTEM''
            \<lparr>name = ''create_user'',
      arguments = Some [''username'' \<mapsto> JStr ''scott'', ''password'' \<mapsto> JStr ''tiger'']\<rparr>
            world0) = Inr env)"
proof -
  let ?drv = "(stub_driver (Inr 0)
        (\<lambda>sql binds.
           if sql = JStr user_count_sql then Inr (rows_result [JObj [(''EXIST_COUNT'', JNum 0)]])
           else Inl (DriverError ''ORA-01031: insufficient privileges'' (Some 1031)))
        (Inl (DriverError ''ORA-03113: end-of-file on communication channel'' (Some 3113))))"
  let ?req = "\<lparr>name = ''create_user'',
      arguments = Some [''username'' \<mapsto> JStr ''scott'', ''password'' \<mapsto> JStr ''tiger'']\<rparr>"
  have n: "name ?req \<in> {''execute'', ''create_user'', ''grant_privileges'', ''get_table_data''}" by simp
  have g: "fst (pool_getConnection ?drv (db world0)) = Inr 0" by (simp add: stub_driver_def)
  have a: "arg ?req ''username'' = JStr ''scott''" by (simp add: arg_def)
  then have u: "name ?req \<in> {''create_user'', ''grant_privileges''} \<longrightarrow> (\<exists>s. arg ?req ''username'' = JStr s)"
    by blast
  from caught_tools_return_envelope[OF n g u, where user = "''SYSTEM''" and tbl = plain_table] n g a show ?thesis by blast
qed

section \<open>Missing arguments\<close>

text \<open>
  Claim C2, as the spec states it: for every known operation invoked with a missing
  required argument (query without sql, check\_user\_exists without username) the
  dispatcher rejects the request before any connection is borrowed from the pool.

  The handler has no validation step. \<^verbatim>\<open>query\<close> without \<^verbatim>\<open>sql\<close> borrows a
  connection, sets the transaction read-only and passes \<^verbatim>\<open>undefined\<close> to the driver;
  the request fails only there.
\<close>

theorem missing_sql_borrows_counterexample:
  "call_tool plain_table
     (stub_driver (Inr 0)
        (\<lambda>sql binds. if sql = JUndefined
                       then Inl (DriverError ''NJS-005: invalid value for parameter 1'' None)
                       else Inr done_result)
        (Inr ()))
     ''SCOTT'' \<lparr>name = ''query'', arguments = None\<rparr> world0
   = (Inl (DriverError ''NJS-005: invalid value for parameter 1'' None),
      \<lparr>db = (),
       trace = [EvGetConnection (Inr 0),
                EvExecute 0 (JStr ''SET TRANSACTION READ ONLY'') [] [] (Inr done_result),
                EvExecute 0 JUndefined [] [MaxRows (JNum 1000)]
                  (Inl (DriverError ''NJS-005: invalid value for parameter 1'' None)),
                EvExecute 0 (JStr ''ROLLBACK'') [] [] (Inr done_result),
                EvConsoleError ''Database operation error:''
                  (DriverError ''NJS-005: invalid value for parameter 1'' None),
                EvClose 0 (Inr ())]\<rparr>)"
  by (simp add: run_defs)

text \<open>
  Claim C2, amended: \<^verbatim>\<open>check_user_exists\<close>, \<^verbatim>\<open>create_user\<close> and
  \<^verbatim>\<open>grant_privileges\<close> invoked without \<^verbatim>\<open>username\<close> throw a TypeError (from
  \<^verbatim>\<open>toUpperCase\<close>) before any connection is borrowed: the world is left as it was, with
  no driver call in the trace.
\<close>

theorem missing_username_rejected_before_borrow:
  assumes n: "name req \<in> {''check_user_exists'', ''create_user'', ''grant_privileges''}"
    and u: "arg req ''username'' = JUndefined"
  shows "\<exists>m. call_tool tbl drv user req w = (Inl (TypeError m), w)"
  using n u by (auto simp: call_tool_def)

theorem missing_username_rejected_before_borrow_witness:
  "name \<lparr>name = ''create_user'', arguments = Some [''password'' \<mapsto> JStr ''s3cret'']\<rparr>
      \<in> {''check_user_exists'', ''create_user'', ''grant_privileges''}
   \<and> arg \<lparr>name = ''create_user'', arguments = Some [''password'' \<mapsto> JStr ''s3cret'']\<rparr> ''username'' = JUndefined
   \<and> (\<exists>m. call_tool plain_table (stub_driver (Inr 0) (\<lambda>sql binds. Inr done_result) (Inr ())) ''SCOTT''
             \<lparr>name = ''create_user'', arguments = Some [''password'' \<mapsto> JStr ''s3cret'']\<rparr> world0
           = (Inl (TypeError m), world0))"
proof -
  let ?req = "\<lparr>name = ''create_user'', arguments = Some [''password'' \<mapsto> JStr ''s3cret'']\<rparr>"
  have n: "name ?req \<in> {''check_user_exists'', ''create_user'', ''grant_privileges''}" by simp
  have u: "arg ?req ''username'' = JUndefined" by (simp add: arg_def)
  from missing_username_rejected_before_borrow[OF n u] n u show ?thesis by blast
qed

text \<open>
  \<^verbatim>\<open>query\<close>, \<^verbatim>\<open>execute\<close> and \<^verbatim>\<open>get_table_data\<close> look at no argument before they ask
  the pool: they borrow a connection (and release it) whatever their arguments are,
  present or missing.
\<close>

lemma unvalidated_tools_borrow:
  assumes n: "name req \<in> {''query'', ''execute'', ''get_table_data''}"
    and g: "fst (pool_getConnection drv (db w)) = Inr c"
  shows "\<exists>cl. pool_events (snd (call_tool tbl drv user req w)) =
                pool_events w @ [EvGetConnection (Inr c), EvClose c cl]"
proof -
  note b = withConnection_pool_events_acquired[OF _ g]
  consider "name req = ''query''" | "name req = ''execute''" | "name req = ''get_table_data''"
    using n by blast
  then show ?thesis
  proof cases
    case 1
    then show ?thesis
      using b[of "query_callback drv (arg req ''sql'')"] by (simp add: call_tool_def)
  next
    case 2
    then show ?thesis
      using b[of "execute_callback drv (arg req ''sql'')"] by (simp add: call_tool_def)
  next
    case 3
    then show ?thesis
      using b[of "get_table_data_callback tbl drv user (arg req ''tableName'')
                    (js_or (arg req ''limit'') (JNum 10))"]
      by (simp add: call_tool_def)
  qed
qed

section \<open>The read-only policy of query\<close>

lemma ledger_transactional: "transactional ledger_driver fst ledger_clean"
  by (auto simp: transactional_def ledger_driver_def ledger_clean_def split: if_splits prod.splits)

lemma ledger_delete_commits_nothing:
  "commits_nothing_itself ledger_driver fst (JStr ''DELETE FROM emp'')"
  by (auto simp: commits_nothing_itself_def ledger_driver_def opens_with_commit_def
        split: if_splits prod.splits)

lemma query_acquired:
  assumes q: "name req = ''query''" and g: "fst (pool_getConnection drv (db w)) = Inr c"
  shows "(\<exists>r1 mid r3 post.
           new_events w (snd (call_tool tbl drv user req w)) =
             EvGetConnection (Inr c) # EvExecute c (JStr ''SET TRANSACTION READ ONLY'') [] [] r1
               # mid @ EvExecute c (JStr ''ROLLBACK'') [] [] r3 # post
         \<and> (case r1 of
              Inl err \<Rightarrow> mid = [] \<and> fst (call_tool tbl drv user req w) = Inl err
            | Inr ok \<Rightarrow>
                (\<exists>r2. mid = [EvExecute c (arg req ''sql'') [] [MaxRows (JNum 1000)] r2]
                   \<and> fst (call_tool tbl drv user req w) =
                       (case r2 of
                          Inl err \<Rightarrow> Inl err
                        | Inr result \<Rightarrow>
                            Inr \<lparr>payload = (case rows result of None \<Rightarrow> JUndefined | Some rs \<Rightarrow> JArr rs),
                                 isError = False\<rparr>)))
         \<and> statements post = []
         \<and> (case r3 of
              Inl err \<Rightarrow> hd post = EvConsoleError ''Error during rollback:'' err
            | Inr ok \<Rightarrow>
                (transactional drv committed clean
                 \<longrightarrow> clean c (db (snd (call_tool tbl drv user req w))))))
       \<and> (transactional drv committed clean \<and> commits_nothing_itself drv committed (arg req ''sql'')
              \<longrightarrow> committed (db (snd (call_tool tbl drv user req w))) = committed (db w))"
proof -
  let ?SET = "JStr ''SET TRANSACTION READ ONLY''"
  let ?RB = "JStr ''ROLLBACK''"
  let ?sql = "arg req ''sql''"
  let ?opts = "[MaxRows (JNum 1000)]"
  from getConnection_acquired[OF g] obtain w1 where
    g1: "getConnection drv w = (Inr c, w1)" and t1: "trace w1 = trace w @ [EvGetConnection (Inr c)]"
    and d1: "db w1 = snd (pool_getConnection drv (db w))" by blast
  obtain r1 w2 where s: "execute drv c ?SET [] [] w1 = (r1, w2)"
    by (cases "execute drv c ?SET [] [] w1")
  note t2 = execute_trace[OF s] and d2 = execute_db[OF s]
  obtain r2 w3 where e: "execute drv c ?sql [] ?opts w2 = (r2, w3)"
    by (cases "execute drv c ?sql [] ?opts w2")
  note t3 = execute_trace[OF e] and d3 = execute_db[OF e]
  define wt where "wt = (case r1 of Inl err \<Rightarrow> w2 | Inr ok \<Rightarrow> w3)"
  define mid where "mid = (case r1 of Inl err \<Rightarrow> [] | Inr ok \<Rightarrow> [EvExecute c ?sql [] ?opts r2])"
  define res where "res = (case r1 of
        Inl err \<Rightarrow> Inl err
      | Inr ok \<Rightarrow> (case r2 of
                    Inl err \<Rightarrow> Inl err
                  | Inr result \<Rightarrow>
                      Inr \<lparr>payload = (case rows result of None \<Rightarrow> JUndefined | Some rs \<Rightarrow> JArr rs),
                           isError = False\<rparr>))"
  have cb: "query_callback drv ?sql c w1 = (res, rollback drv c wt)"
    by (cases r1; cases r2) (simp_all add: query_callback_def s e res_def wt_def)
  have tt: "trace wt = trace w1 @ EvExecute c ?SET [] [] r1 # mid"
    by (cases r1) (simp_all add: wt_def mid_def t2 t3)
  from rollback_eq[of drv c wt] obtain r3 prb where
    tr: "trace (rollback drv c wt) = trace wt @ EvExecute c ?RB [] [] r3 # prb"
    and sr: "statements prb = []"
    and lr: "case r3 of Inl err \<Rightarrow> prb = [EvConsoleError ''Error during rollback:'' err] | Inr ok \<Rightarrow> prb = []"
    and dr: "db (rollback drv c wt) = snd (conn_execute drv c ?RB [] [] (db wt))"
    and fr: "r3 = fst (conn_execute drv c ?RB [] [] (db wt))"
    by blast
  from withConnection_acquired[where callback = "query_callback drv ?sql", OF g1 cb] obtain pwc where
    f: "fst (withConnection drv (query_callback drv ?sql) w) = res"
    and tw: "trace (snd (withConnection drv (query_callback drv ?sql) w)) = trace (rollback drv c wt) @ pwc"
    and sw: "statements pwc = []"
    and dw: "db (snd (withConnection drv (query_callback drv ?sql) w)) = snd (conn_close drv c (db (rollback drv c wt)))"
    by blast
  have ct: "call_tool tbl drv user req w = withConnection drv (query_callback drv ?sql) w"
    using q by (simp add: call_tool_def)
  have ne: "new_events w (snd (call_tool tbl drv user req w)) =
      EvGetConnection (Inr c) # EvExecute c ?SET [] [] r1 # mid @ EvExecute c ?RB [] [] r3 # (prb @ pwc)"
    by (rule new_events_append) (simp add: ct tw tr tt t1)
  have out: "case r1 of
              Inl err \<Rightarrow> mid = [] \<and> fst (call_tool tbl drv user req w) = Inl err
            | Inr ok \<Rightarrow>
                (\<exists>r2. mid = [EvExecute c ?sql [] ?opts r2]
                   \<and> fst (call_tool tbl drv user req w) =
                       (case r2 of
                          Inl err \<Rightarrow> Inl err
                        | Inr result \<Rightarrow>
                            Inr \<lparr>payload = (case rows result of None \<Rightarrow> JUndefined | Some rs \<Rightarrow> JArr rs),
                                 isError = False\<rparr>))"
    by (cases r1) (simp_all add: ct f res_def mid_def)
  have lg: "case r3 of
              Inl err \<Rightarrow> hd (prb @ pwc) = EvConsoleError ''Error during rollback:'' err
            | Inr ok \<Rightarrow>
                (transactional drv committed clean
                 \<longrightarrow> clean c (db (snd (call_tool tbl drv user req w))))"
  proof (cases r3)
    case (Inl err)
    with lr show ?thesis by simp
  next
    case (Inr ok)
    have "clean c (db (snd (call_tool tbl drv user req w)))" if tr: "transactional drv committed clean"
    proof -
      from tr fr Inr have "clean c (snd (conn_execute drv c ?RB [] [] (db wt)))"
        unfolding transactional_def by metis
      with tr have "clean c (snd (conn_close drv c (snd (conn_execute drv c ?RB [] [] (db wt)))))"
        unfolding transactional_def by blast
      then show ?thesis by (simp add: ct dw dr)
    qed
    with Inr show ?thesis by simp
  qed
  have cm: "committed (db (snd (call_tool tbl drv user req w))) = committed (db w)"
    if tr: "transactional drv committed clean"
      and cn: "commits_nothing_itself drv committed ?sql"
  proof -
    from tr have a1: "committed (snd (pool_getConnection drv d)) = committed d" for d
      unfolding transactional_def by blast
    from tr have a2: "committed (snd (conn_close drv c d)) = committed d" for d
      unfolding transactional_def by blast
    from tr have a3: "committed (snd (conn_execute drv c ?SET [] [] d)) = committed d" for d
      unfolding transactional_def by blast
    from tr have a4: "committed (snd (conn_execute drv c ?RB [] [] d)) = committed d" for d
      unfolding transactional_def by blast
    from cn have a5: "committed (snd (conn_execute drv c ?sql [] ?opts d)) = committed d" for d
      unfolding commits_nothing_itself_def by simp
    have "committed (db wt) = committed (db w)"
      by (cases r1) (simp_all add: wt_def d1 d2 d3 a1 a3 a5)
    then show ?thesis by (simp add: ct dw dr a2 a4)
  qed
  from ne out lg sr sw have "\<exists>r1 mid r3 post.
           new_events w (snd (call_tool tbl drv user req w)) =
             EvGetConnection (Inr c) # EvExecute c (JStr ''SET TRANSACTION READ ONLY'') [] [] r1
               # mid @ EvExecute c (JStr ''ROLLBACK'') [] [] r3 # post
         \<and> (case r1 of
              Inl err \<Rightarrow> mid = [] \<and> fst (call_tool tbl drv user req w) = Inl err
            | Inr ok \<Rightarrow>
                (\<exists>r2. mid = [EvExecute c (arg req ''sql'') [] [MaxRows (JNum 1000)] r2]
                   \<and> fst (call_tool tbl drv user req w) =
                       (case r2 of
                          Inl err \<Rightarrow> Inl err
                        | Inr result \<Rightarrow>
                            Inr \<lparr>payload = (case rows result of None \<Rightarrow> JUndefined | Some rs \<Rightarrow> JArr rs),
                                 isError = False\<rparr>)))
         \<and> statements post = []
         \<and> (case r3 of
              Inl err \<Rightarrow> hd post = EvConsoleError ''Error during rollback:'' err
            | Inr ok \<Rightarrow>
                (transactional drv committed clean
                 \<longrightarrow> clean c (db (snd (call_tool tbl drv user req w)))))"
    by (intro exI[of _ r1] exI[of _ mid] exI[of _ r3] exI[of _ "prb @ pwc"]) simp
  with cm show ?thesis by blast
qed

lemma query_refused:
  assumes q: "name req = ''query''" and g: "fst (pool_getConnection drv (db w)) = Inl err"
  shows "fst (call_tool tbl drv user req w) = Inl err
       \<and> statements (new_events w (snd (call_tool tbl drv user req w))) = []
       \<and> (transactional drv committed clean \<and> commits_nothing_itself drv committed (arg req ''sql'')
              \<longrightarrow> committed (db (snd (call_tool tbl drv user req w))) = committed (db w))"
proof -
  obtain d1 where p: "pool_getConnection drv (db w) = (Inl err, d1)"
    using g by (cases "pool_getConnection drv (db w)") simp
  have d: "d1 = snd (pool_getConnection drv (db w))" by (simp add: p)
  have c: "call_tool tbl drv user req w =
      (Inl err, w\<lparr>db := d1, trace := trace w @ [EvGetConnection (Inl err),
                                                 EvConsoleError ''Database operation error:'' err]\<rparr>)"
    using q by (simp add: call_tool_def withConnection_def getConnection_def console_error_def p)
  have "committed (snd (pool_getConnection drv (db w))) = committed (db w)"
    if "transactional drv committed clean"
    using that unfolding transactional_def by blast
  then show ?thesis
    by (simp add: c new_events_def d)
qed

text \<open>
  Claim C4, as the spec states it: for every invocation of \<^verbatim>\<open>query\<close>, the session is
  set to read-only mode before the caller-supplied SQL executes, and an explicit rollback
  is issued on every completion path (success or error), with rollback failures logged
  and swallowed; consequently a mutating statement issued through \<^verbatim>\<open>query\<close> leaves
  the database state unchanged.

  The consequence does not hold of every mutating statement. The handler rolls back what
  the transaction holds; a statement that commits by itself, such as a block that issues
  \<^verbatim>\<open>COMMIT\<close> or a data definition statement, has left the transaction before the
  rollback runs. On the ledger driver, a block that opens with \<^verbatim>\<open>COMMIT\<close> and deletes
  is in the committed data after the call, the handler's rollback notwithstanding.
\<close>

theorem query_self_committing_counterexample:
  "fst (db (snd (call_tool plain_table ledger_driver ''SCOTT''
                   \<lparr>name = ''query'',
                    arguments = Some [''sql'' \<mapsto> JStr ''BEGIN COMMIT; DELETE FROM emp; COMMIT; END;'']\<rparr>
                   \<lparr>db = ([''INSERT INTO emp VALUES (1)''], [''INSERT INTO emp VALUES (1)'']),
                    trace = []\<rparr>)))
     = [''INSERT INTO emp VALUES (1)'', ''BEGIN COMMIT; DELETE FROM emp; COMMIT; END;'']
   \<and> statements (new_events
         \<lparr>db = ([''INSERT INTO emp VALUES (1)''], [''INSERT INTO emp VALUES (1)'']), trace = []\<rparr>
         (snd (call_tool plain_table ledger_driver ''SCOTT''
                 \<lparr>name = ''query'',
                  arguments = Some [''sql'' \<mapsto> JStr ''BEGIN COMMIT; DELETE FROM emp; COMMIT; END;'']\<rparr>
                 \<lparr>db = ([''INSERT INTO emp VALUES (1)''], [''INSERT INTO emp VALUES (1)'']),
                  trace = []\<rparr>)))
     = [(JStr ''SET TRANSACTION READ ONLY'', [], []),
        (JStr ''BEGIN COMMIT; DELETE FROM emp; COMMIT; END;'', [], [MaxRows (JNum 1000)]),
        (JStr ''ROLLBACK'', [], [])]"
  by (simp add: call_tool_def withConnection_def getConnection_def execute_def close_def
        console_error_def rollback_def query_callback_def arg_def new_events_def
        ledger_driver_def done_result_def opens_with_commit_def)

text \<open>
  Claim C4, amended: for every invocation of \<^verbatim>\<open>query\<close>, the session is set to
  read-only mode before the caller-supplied SQL executes, and an explicit rollback is
  issued on every completion path (success or error), with rollback failures logged and
  swallowed; consequently a mutating statement that commits nothing by itself leaves the
  committed data unchanged, and after a rollback that succeeded the session holds no
  uncommitted change.

  When the pool hands out no connection the call rethrows the pool's error and executes
  nothing. When it hands out the connection \<open>c\<close>, the events of the call are: the
  borrowing, \<^verbatim>\<open>SET TRANSACTION READ ONLY\<close> with its outcome \<open>r1\<close>, then the caller's
  SQL (with \<^verbatim>\<open>maxRows: 1000\<close> and no \<^verbatim>\<open>autoCommit\<close>) if and only if \<open>r1\<close> is a
  success, then \<^verbatim>\<open>ROLLBACK\<close> with its outcome \<open>r3\<close>, then events that execute
  nothing. The result of the call is decided by \<open>r1\<close> and the outcome \<open>r2\<close> of the
  caller's SQL alone; a failed rollback is logged right after it, and one that succeeded
  has left the session clean on a transactional driver. On such a driver the committed
  data after the call are those before it, for every statement that commits nothing by
  itself.
\<close>

theorem query_read_only_then_rollback:
  assumes q: "name req = ''query''"
  shows "(case fst (pool_getConnection drv (db w)) of
            Inl err \<Rightarrow>
              fst (call_tool tbl drv user req w) = Inl err
              \<and> statements (new_events w (snd (call_tool tbl drv user req w))) = []
          | Inr c \<Rightarrow>
              (\<exists>r1 mid r3 post.
           new_events w (snd (call_tool tbl drv user req w)) =
             EvGetConnection (Inr c) # EvExecute c (JStr ''SET TRANSACTION READ ONLY'') [] [] r1
               # mid @ EvExecute c (JStr ''ROLLBACK'') [] [] r3 # post
         \<and> (case r1 of
              Inl err \<Rightarrow> mid = [] \<and> fst (call_tool tbl drv user req w) = Inl err
            | Inr ok \<Rightarrow>
                (\<exists>r2. mid = [EvExecute c (arg req ''sql'') [] [MaxRows (JNum 1000)] r2]
                   \<and> fst (call_tool tbl drv user req w) =
                       (case r2 of
                          Inl err \<Rightarrow> Inl err
                        | Inr result \<Rightarrow>
                            Inr \<lparr>payload = (case rows result of None \<Rightarrow> JUndefined | Some rs \<Rightarrow> JArr rs),
                                 isError = False\<rparr>)))
         \<and> statements post = []
         \<and> (case r3 of
              Inl err \<Rightarrow> hd post = EvConsoleError ''Error during rollback:'' err
            | Inr ok \<Rightarrow>
                (transactional drv committed clean
                 \<longrightarrow> clean c (db (snd (call_tool tbl drv user req w)))))))
       \<and> (transactional drv committed clean \<and> commits_nothing_itself drv committed (arg req ''sql'')
              \<longrightarrow> committed (db (snd (call_tool tbl drv user req w))) = committed (db w))"
proof (cases "fst (pool_getConnection drv (db w))")
  case (Inl err)
  from query_refused[OF q Inl, where user = user and committed = committed and tbl = tbl and clean = clean]
  show ?thesis by (simp add: Inl)
next
  case (Inr c)
  from query_acquired[OF q Inr, where user = user and committed = committed and tbl = tbl and clean = clean]
  show ?thesis by (simp add: Inr)
qed

theorem query_read_only_then_rollback_witness:
  "name \<lparr>name = ''query'', arguments = Some [''sql'' \<mapsto> JStr ''DELETE FROM emp'']\<rparr> = ''query''
   \<and> transactional ledger_driver fst ledger_clean
   \<and> commits_nothing_itself ledger_driver fst (JStr ''DELETE FROM emp'')
   \<and> statements (new_events
         \<lparr>db = ([''INSERT INTO emp VALUES (1)''], [''INSERT INTO emp VALUES (1)'']), trace = []\<rparr>
         (snd (call_tool plain_table ledger_driver ''SCOTT''
                 \<lparr>name = ''query'', arguments = Some [''sql'' \<mapsto> JStr ''DELETE FROM emp'']\<rparr>
                 \<lparr>db = ([''INSERT INTO emp VALUES (1)''], [''INSERT INTO emp VALUES (1)'']), trace = []\<rparr>)))
       = [(JStr ''SET TRANSACTION READ ONLY'', [], []),
          (JStr ''DELETE FROM emp'', [], [MaxRows (JNum 1000)]),
          (JStr ''ROLLBACK'', [], [])]
   \<and> fst (db (snd (call_tool plain_table ledger_driver ''SCOTT''
                     \<lparr>name = ''query'', arguments = Some [''sql'' \<mapsto> JStr ''DELETE FROM emp'']\<rparr>
                     \<lparr>db = ([''INSERT INTO emp VALUES (1)''], [''INSERT INTO emp VALUES (1)'']), trace = []\<rparr>)))
       = [''INSERT INTO emp VALUES (1)'']
   \<and> ledger_clean 0
        (db (snd (call_tool plain_table ledger_driver ''SCOTT''
                    \<lparr>name = ''query'', arguments = Some [''sql'' \<mapsto> JStr ''DELETE FROM emp'']\<rparr>
                    \<lparr>db = ([''INSERT INTO emp VALUES (1)''], [''INSERT INTO emp VALUES (1)'']), trace = []\<rparr>)))"
proof -
  let ?req = "\<lparr>name = ''query'', arguments = Some [''sql'' \<mapsto> JStr ''DELETE FROM emp'']\<rparr>"
  let ?w = "\<lparr>db = ([''INSERT INTO emp VALUES (1)''], [''INSERT INTO emp VALUES (1)'']), trace = []\<rparr>"
  have q: "name ?req = ''query''" by simp
  note c = ledger_transactional
  have n: "commits_nothing_itself ledger_driver fst (arg ?req ''sql'')"
    using ledger_delete_commits_nothing by (simp add: arg_def)
  have st: "statements (new_events ?w (snd (call_tool plain_table ledger_driver ''SCOTT'' ?req ?w)))
       = [(JStr ''SET TRANSACTION READ ONLY'', [], []),
          (JStr ''DELETE FROM emp'', [], [MaxRows (JNum 1000)]),
          (JStr ''ROLLBACK'', [], [])]"
    by (simp add: call_tool_def withConnection_def getConnection_def execute_def close_def
          console_error_def rollback_def query_callback_def arg_def new_events_def
          ledger_driver_def done_result_def opens_with_commit_def)
  from query_read_only_then_rollback[OF q, where committed = fst and clean = ledger_clean
         and user = "''SCOTT''" and tbl = plain_table and drv = ledger_driver and w = ?w] c n
  have "fst (db (snd (call_tool plain_table ledger_driver ''SCOTT'' ?req ?w))) = fst (db ?w)" by blast
  moreover have "ledger_clean 0 (db (snd (call_tool plain_table ledger_driver ''SCOTT'' ?req ?w)))"
    by (simp add: call_tool_def withConnection_def getConnection_def execute_def close_def
          console_error_def rollback_def query_callback_def arg_def
          ledger_driver_def ledger_clean_def done_result_def opens_with_commit_def)
  ultimately show ?thesis using q c st ledger_delete_commits_nothing by simp
qed

section \<open>The row ceiling of query\<close>

lemma maxRows_bound:
  assumes h: "honours_maxRows drv" and n: "0 < n"
    and e: "execute drv c sql binds [MaxRows (JNum n)] w = (Inr result, w')"
    and r: "rows result = Some rs"
  shows "int (length rs) \<le> n"
proof -
  from execute_fst[OF e] have "fst (conn_execute drv c sql binds [MaxRows (JNum n)] (db w)) = Inr result"
    by simp
  with h n r show ?thesis unfolding honours_maxRows_def by blast
qed

lemma query_callback_payload:
  assumes h: "honours_maxRows drv" and q: "query_callback drv sql c w = (Inr env, w')"
  shows "isError env = False \<and> (payload env = JUndefined \<or> (\<exists>rs. payload env = JArr rs \<and> length rs \<le> 1000))"
proof -
  obtain r1 w1 where s: "execute drv c (JStr ''SET TRANSACTION READ ONLY'') [] [] w = (r1, w1)"
    by (cases "execute drv c (JStr ''SET TRANSACTION READ ONLY'') [] [] w")
  obtain r2 w2 where e: "execute drv c sql [] [MaxRows (JNum 1000)] w1 = (r2, w2)"
    by (cases "execute drv c sql [] [MaxRows (JNum 1000)] w1")
  from q s e obtain ok result where r1: "r1 = Inr ok" and r2: "r2 = Inr result"
    and env: "env = \<lparr>payload = (case rows result of None \<Rightarrow> JUndefined | Some rs \<Rightarrow> JArr rs), isError = False\<rparr>"
    by (cases r1; cases r2) (auto simp: query_callback_def)
  show ?thesis
  proof (cases "rows result")
    case None
    then show ?thesis by (simp add: env)
  next
    case (Some rs)
    from maxRows_bound[OF h _ e[unfolded r2] Some] have "int (length rs) \<le> 1000" by simp
    then show ?thesis by (simp add: env Some)
  qed
qed

lemma stub_honours_maxRows: "honours_maxRows (stub_driver acq reply cl)"
  by (auto simp: honours_maxRows_def stub_driver_def limit_rows_def split: sum.splits)

text \<open>
  Claim C8: for every \<^verbatim>\<open>query\<close> invocation, regardless of the SQL submitted or any
  limit expressed inside it, the row set placed in the response payload contains at most
  1000 rows.

  The caller's SQL is executed with \<^verbatim>\<open>maxRows: 1000\<close> and the payload is the driver's
  \<^verbatim>\<open>rows\<close> as they come; for a driver that honours \<^verbatim>\<open>maxRows\<close>, every envelope the
  call returns is a success whose payload holds at most 1000 rows (or is
  \<^verbatim>\<open>undefined\<close>, when the statement was not a query).
\<close>

theorem query_rows_capped:
  assumes q: "name req = ''query''" and h: "honours_maxRows drv"
    and r: "fst (call_tool tbl drv user req w) = Inr env"
  shows "isError env = False
       \<and> (payload env = JUndefined \<or> (\<exists>rs. payload env = JArr rs \<and> length rs \<le> 1000))"
proof -
  from r q have "fst (withConnection drv (query_callback drv (arg req ''sql'')) w) = Inr env"
    by (simp add: call_tool_def)
  from withConnection_result[OF this] obtain c w1 w2
    where "query_callback drv (arg req ''sql'') c w1 = (Inr env, w2)" by blast
  from query_callback_payload[OF h this] show ?thesis .
qed

theorem query_rows_capped_witness:
  "honours_maxRows
     (stub_driver (Inr 0) (\<lambda>sql binds. Inr (rows_result (replicate 1500 (JObj [(''N'', JNum 1)])))) (Inr ()))
   \<and> (\<exists>rs. fst (call_tool plain_table
                  (stub_driver (Inr 0)
                     (\<lambda>sql binds. Inr (rows_result (replicate 1500 (JObj [(''N'', JNum 1)])))) (Inr ()))
                  ''SCOTT'' \<lparr>name = ''query'', arguments = Some [''sql'' \<mapsto> JStr ''SELECT 1 AS N FROM big'']\<rparr>
                  world0)
             = Inr \<lparr>payload = JArr rs, isError = False\<rparr>
          \<and> length rs \<le> 1000)"
proof -
  let ?drv = "stub_driver (Inr 0)
     (\<lambda>sql binds. Inr (rows_result (replicate 1500 (JObj [(''N'', JNum 1)])))) (Inr ())"
  let ?req = "\<lparr>name = ''query'', arguments = Some [''sql'' \<mapsto> JStr ''SELECT 1 AS N FROM big'']\<rparr>"
  let ?env = "\<lparr>payload = JArr (replicate 1000 (JObj [(''N'', JNum 1)])), isError = False\<rparr>"
  have q: "name ?req = ''query''" by simp
  have h: "honours_maxRows ?drv" by (rule stub_honours_maxRows)
  have r: "fst (call_tool plain_table ?drv ''SCOTT'' ?req world0) = Inr ?env"
    by (simp add: run_defs)
  from query_rows_capped[OF q h r] have "length (replicate 1000 (JObj [(''N'', JNum 1)])) \<le> 1000"
    by simp
  with h r show ?thesis by blast
qed

section \<open>create\_user on an existing user\<close>

lemma toUpperCase_scott: "toUpperCase plain_table ''scott'' = ''SCOTT''"
  by code_simp

lemma toUpperCase_emp: "toUpperCase plain_table ''emp'' = ''EMP''"
  by code_simp

lemma first_create:
  "db (snd (call_tool plain_table catalog_driver ''SYSTEM''
          \<lparr>name = ''create_user'',
           arguments = Some [''username'' \<mapsto> JStr ''scott'', ''password'' \<mapsto> JStr ''tiger'']\<rparr>
          \<lparr>db = [], trace = []\<rparr>)) = [''SCOTT'']"
  by (simp add: run_defs catalog_driver_def toUpperCase_scott exist_count_def js_gt_zero_def
        user_count_sql_def create_user_sql_def alter_user_sql_def js_or_def)

text \<open>
  Claim C5: if the precondition check of \<^verbatim>\<open>create_user\<close> finds that the requested
  username already exists, the handler returns an ``already exists'' error envelope
  (\<^verbatim>\<open>isError: true\<close>) and executes no \<^verbatim>\<open>CREATE USER\<close> or \<^verbatim>\<open>ALTER USER\<close>
  statement in that invocation; in particular a second \<^verbatim>\<open>create_user\<close> call with the
  same username issues no DDL.

  The check finds the user when the count query resolves and the \<^verbatim>\<open>EXIST_COUNT\<close> of
  its first row is greater than zero. The count query is then the only statement executed.
\<close>

theorem create_user_existing_short_circuits:
  assumes n: "name req = ''create_user''" and u: "arg req ''username'' = JStr s"
    and g: "fst (pool_getConnection drv (db w)) = Inr c"
    and k: "fst (conn_execute drv c (JStr user_count_sql) [JStr (toUpperCase tbl s)] []
                  (snd (pool_getConnection drv (db w)))) = Inr checkResult"
    and x: "exist_count checkResult = Inr cnt" and p: "js_gt_zero cnt"
  shows "fst (call_tool tbl drv user req w) =
           Inr \<lparr>payload = JObj [(''error'', JStr (''User '' @ toUpperCase tbl s @ '' already exists'')),
                                (''suggestion'', JStr ''Use a different username or drop the existing user first'')],
                isError = True\<rparr>
       \<and> statements (new_events w (snd (call_tool tbl drv user req w))) =
           [(JStr user_count_sql, [JStr (toUpperCase tbl s)], [])]"
proof -
  let ?cb = "create_user_callback drv (toUpperCase tbl s) (arg req ''password'')
                  (js_or (arg req ''tablespace'') (JStr ''USERS''))
                  (js_or (arg req ''tempTablespace'') (JStr ''TEMP''))"
  let ?env = "\<lparr>payload = JObj [(''error'', JStr (''User '' @ toUpperCase tbl s @ '' already exists'')),
                                (''suggestion'', JStr ''Use a different username or drop the existing user first'')],
                isError = True\<rparr>"
  from getConnection_acquired[OF g] obtain w1 where
    g1: "getConnection drv w = (Inr c, w1)" and t1: "trace w1 = trace w @ [EvGetConnection (Inr c)]"
    and d1: "db w1 = snd (pool_getConnection drv (db w))" by blast
  obtain w2 where e: "execute drv c (JStr user_count_sql) [JStr (toUpperCase tbl s)] [] w1 = (Inr checkResult, w2)"
    using k by (simp add: execute_run d1)
  note t2 = execute_trace[OF e]
  have cb: "?cb c w1 = (Inr ?env, w2)"
    by (simp add: create_user_callback_def e x p)
  from withConnection_acquired[where callback = ?cb, OF g1 cb] obtain post where
    f: "fst (withConnection drv ?cb w) = Inr ?env"
    and tw: "trace (snd (withConnection drv ?cb w)) = trace w2 @ post"
    and sp: "statements post = []" by blast
  have ct: "call_tool tbl drv user req w = withConnection drv ?cb w"
    using n u by (simp add: call_tool_def)
  have "new_events w (snd (call_tool tbl drv user req w)) =
      EvGetConnection (Inr c) # EvExecute c (JStr user_count_sql) [JStr (toUpperCase tbl s)] [] (Inr checkResult) # post"
    by (rule new_events_append) (simp add: ct tw t2 t1)
  then show ?thesis by (simp add: ct f sp)
qed

text \<open>
  The theorem at the second of two calls on the catalogue driver, started with no user:
  the first call has created \<^verbatim>\<open>SCOTT\<close>, the second executes the count query only.
\<close>

theorem create_user_existing_short_circuits_witness:
  "statements
     (new_events
        (snd (call_tool plain_table catalog_driver ''SYSTEM''
                \<lparr>name = ''create_user'',
                 arguments = Some [''username'' \<mapsto> JStr ''scott'', ''password'' \<mapsto> JStr ''tiger'']\<rparr>
                \<lparr>db = [], trace = []\<rparr>))
        (snd (call_tool plain_table catalog_driver ''SYSTEM''
                \<lparr>name = ''create_user'',
                 arguments = Some [''username'' \<mapsto> JStr ''scott'', ''password'' \<mapsto> JStr ''tiger'']\<rparr>
                (snd (call_tool plain_table catalog_driver ''SYSTEM''
                        \<lparr>name = ''create_user'',
                         arguments = Some [''username'' \<mapsto> JStr ''scott'', ''password'' \<mapsto> JStr ''tiger'']\<rparr>
                        \<lparr>db = [], trace = []\<rparr>)))))
   = [(JStr user_count_sql, [JStr ''SCOTT''], [])]"
proof -
  let ?req = "\<lparr>name = ''create_user'',
           arguments = Some [''username'' \<mapsto> JStr ''scott'', ''password'' \<mapsto> JStr ''tiger'']\<rparr>"
  let ?w1 = "snd (call_tool plain_table catalog_driver ''SYSTEM'' ?req \<lparr>db = [], trace = []\<rparr>)"
  have n: "name ?req = ''create_user''" by simp
  have u: "arg ?req ''username'' = JStr ''scott''" by (simp add: arg_def)
  have g: "fst (pool_getConnection catalog_driver (db ?w1)) = Inr 0" by (simp add: catalog_driver_def)
  have k: "fst (conn_execute catalog_driver 0 (JStr user_count_sql) [JStr (toUpperCase plain_table ''scott'')] []
                  (snd (pool_getConnection catalog_driver (db ?w1))))
             = Inr (rows_result [JObj [(''EXIST_COUNT'', JNum 1)]])"
    by (simp only: first_create) (simp add: catalog_driver_def toUpperCase_scott)
  have x: "exist_count (rows_result [JObj [(''EXIST_COUNT'', JNum 1)]]) = Inr (JNum 1)"
    by (simp add: exist_count_def rows_result_def)
  have p: "js_gt_zero (JNum 1)" by (simp add: js_gt_zero_def)
  from create_user_existing_short_circuits[OF n u g k x p, where user = "''SYSTEM''"]
  show ?thesis by (simp add: toUpperCase_scott)
qed

section \<open>grant\_privileges, item by item\<close>

lemma grant_loop_run:
  "\<exists>rs. length rs = length ps
      \<and> fst (grant_loop drv c u ps acc w) = acc @ map2 grant_result ps rs
      \<and> trace (snd (grant_loop drv c u ps acc w)) =
          trace w @ map2 (\<lambda>p r. EvExecute c (JStr (grant_sql p u)) [] [AutoCommit True] r) ps rs"
proof (induction ps arbitrary: acc w)
  case Nil
  then show ?case by simp
next
  case (Cons p ps)
  obtain r w1 where e: "execute drv c (JStr (grant_sql p u)) [] [AutoCommit True] w = (r, w1)"
    by (cases "execute drv c (JStr (grant_sql p u)) [] [AutoCommit True] w")
  note t = execute_trace[OF e]
  from Cons.IH[of "acc @ [grant_result p r]" w1] obtain rs where
    l: "length rs = length ps"
    and f: "fst (grant_loop drv c u ps (acc @ [grant_result p r]) w1) = (acc @ [grant_result p r]) @ map2 grant_result ps rs"
    and tr: "trace (snd (grant_loop drv c u ps (acc @ [grant_result p r]) w1)) =
          trace w1 @ map2 (\<lambda>p r. EvExecute c (JStr (grant_sql p u)) [] [AutoCommit True] r) ps rs"
    by blast
  show ?case
    by (rule exI[of _ "r # rs"]) (simp add: e l f tr t)
qed

lemma grant_result_entry:
  "grant_result = (\<lambda>privilege r.
                         case r of
                           Inr ok \<Rightarrow> JObj [(''privilege'', privilege), (''granted'', JBool True)]
                         | Inl err \<Rightarrow>
                             JObj [(''privilege'', privilege), (''granted'', JBool False),
                                   (''error'', JStr (message err))])"
  by (intro ext) (simp add: grant_result_def)

lemma two_outcomes: "length rs = Suc (Suc 0) \<Longrightarrow> \<exists>a b. rs = [a, b]"
  by (cases rs; simp) (metis length_0_conv length_Suc_conv)

text \<open>
  Claim C6: for every \<^verbatim>\<open>grant_privileges\<close> invocation on an existing user, the handler
  executes one \<^verbatim>\<open>GRANT\<close> statement per requested privilege in request order,
  captures each failure as a per-item result \<^verbatim>\<open>{privilege, granted: false, error}\<close>
  without aborting the remaining privileges, and returns an envelope with
  \<^verbatim>\<open>isError: false\<close> whose payload contains exactly one result entry per requested
  privilege, in order, even when some grants failed.

  The user exists when the count query resolves and the \<^verbatim>\<open>EXIST_COUNT\<close> of its first
  row is not 0. With \<open>rs\<close> the outcomes of the \<^verbatim>\<open>GRANT\<close> statements, one for each
  element of \<open>ps\<close>: the events after the count query are these statements in the order of
  \<open>ps\<close>, each with \<^verbatim>\<open>autoCommit: true\<close> and with its outcome, and the payload lists
  for each privilege the entry of its own outcome: \<^verbatim>\<open>{privilege, granted: true}\<close>
  when the statement resolved, and \<^verbatim>\<open>{privilege, granted: false, error}\<close> with the
  message of the error when it was rejected.
\<close>

theorem grant_privileges_per_item:
  assumes n: "name req = ''grant_privileges''" and u: "arg req ''username'' = JStr s"
    and pr: "arg req ''privileges'' = JArr ps"
    and g: "fst (pool_getConnection drv (db w)) = Inr c"
    and k: "fst (conn_execute drv c (JStr user_count_sql) [JStr (toUpperCase tbl s)] []
                  (snd (pool_getConnection drv (db w)))) = Inr checkResult"
    and x: "exist_count checkResult = Inr cnt" and p: "cnt \<noteq> JNum 0"
  shows "\<exists>rs post.
           length rs = length ps
         \<and> fst (call_tool tbl drv user req w) =
             Inr \<lparr>payload =
                    JObj [(''message'', JStr (''Privileges processed for user '' @ toUpperCase tbl s)),
                          (''results'',
                           JArr (map2
                             (\<lambda>privilege r.
                         case r of
                           Inr ok \<Rightarrow> JObj [(''privilege'', privilege), (''granted'', JBool True)]
                         | Inl err \<Rightarrow>
                             JObj [(''privilege'', privilege), (''granted'', JBool False),
                                   (''error'', JStr (message err))])
                             ps rs))],
                  isError = False\<rparr>
         \<and> new_events w (snd (call_tool tbl drv user req w)) =
             EvGetConnection (Inr c)
               # EvExecute c (JStr user_count_sql) [JStr (toUpperCase tbl s)] [] (Inr checkResult)
               # map2 (\<lambda>privilege r.
                         EvExecute c (JStr (''GRANT '' @ js_to_string privilege @ '' TO '' @ toUpperCase tbl s))
                           [] [AutoCommit True] r) ps rs
               @ post
         \<and> statements post = []"
proof -
  let ?U = "toUpperCase tbl s"
  let ?cb = "grant_privileges_callback drv ?U (arg req ''privileges'')"
  from getConnection_acquired[OF g] obtain w1 where
    g1: "getConnection drv w = (Inr c, w1)" and t1: "trace w1 = trace w @ [EvGetConnection (Inr c)]"
    and d1: "db w1 = snd (pool_getConnection drv (db w))" by blast
  obtain w2 where e: "execute drv c (JStr user_count_sql) [JStr ?U] [] w1 = (Inr checkResult, w2)"
    using k by (simp add: execute_run d1)
  note t2 = execute_trace[OF e]
  from grant_loop_run[of ps drv c ?U "[]" w2] obtain rs where
    l: "length rs = length ps"
    and f: "fst (grant_loop drv c ?U ps [] w2) = map2 grant_result ps rs"
    and tl: "trace (snd (grant_loop drv c ?U ps [] w2)) =
          trace w2 @ map2 (\<lambda>p r. EvExecute c (JStr (grant_sql p ?U)) [] [AutoCommit True] r) ps rs"
    by auto
  let ?env = "\<lparr>payload = JObj [(''message'', JStr (''Privileges processed for user '' @ ?U)),
                                  (''results'', JArr (map2 grant_result ps rs))],
                  isError = False\<rparr>"
  have cb: "?cb c w1 = (Inr ?env, snd (grant_loop drv c ?U ps [] w2))"
    using f by (auto simp: grant_privileges_callback_def e x p pr split: prod.splits)
  from withConnection_acquired[where callback = ?cb, OF g1 cb] obtain post where
    fw: "fst (withConnection drv ?cb w) = Inr ?env"
    and tw: "trace (snd (withConnection drv ?cb w)) = trace (snd (grant_loop drv c ?U ps [] w2)) @ post"
    and sp: "statements post = []" by blast
  have ct: "call_tool tbl drv user req w = withConnection drv ?cb w"
    using n u by (simp add: call_tool_def)
  have ne: "new_events w (snd (call_tool tbl drv user req w)) =
      EvGetConnection (Inr c) # EvExecute c (JStr user_count_sql) [JStr ?U] [] (Inr checkResult)
        # map2 (\<lambda>p r. EvExecute c (JStr (grant_sql p ?U)) [] [AutoCommit True] r) ps rs @ post"
    by (rule new_events_append) (simp add: ct tw tl t2 t1)
  show ?thesis
    using l ne sp
    by (intro exI[of _ rs] exI[of _ post]) (simp add: ct fw grant_sql_def grant_result_entry)
qed

text \<open>
  The user \<^verbatim>\<open>SCOTT\<close> exists; \<^verbatim>\<open>CREATE SESSION\<close> is granted and \<^verbatim>\<open>FLY\<close> is
  rejected by the database. Both statements are executed, and the payload has one entry
  for each.
\<close>

theorem grant_privileges_per_item_witness:
  "fst (call_tool plain_table
            (stub_driver (Inr 0)
               (\<lambda>sql binds.
                  if sql = JStr user_count_sql then Inr (rows_result [JObj [(''EXIST_COUNT'', JNum 1)]])
                  else if sql = JStr ''GRANT FLY TO SCOTT''
                    then Inl (DriverError ''ORA-00990: missing or invalid privilege'' (Some 990))
                  else Inr done_result)
               (Inr ()))
            ''SYSTEM''
            \<lparr>name = ''grant_privileges'',
             arguments = Some [''username'' \<mapsto> JStr ''scott'',
                               ''privileges'' \<mapsto> JArr [JStr ''CREATE SESSION'', JStr ''FLY'']]\<rparr>
            world0)
       = Inr \<lparr>payload =
                JObj [(''message'', JStr ''Privileges processed for user SCOTT''),
                      (''results'',
                       JArr [JObj [(''privilege'', JStr ''CREATE SESSION''), (''granted'', JBool True)],
                             JObj [(''privilege'', JStr ''FLY''), (''granted'', JBool False),
                                   (''error'', JStr ''ORA-00990: missing or invalid privilege'')]])],
              isError = False\<rparr>
   \<and> new_events world0 (snd (call_tool plain_table
            (stub_driver (Inr 0)
               (\<lambda>sql binds.
                  if sql = JStr user_count_sql then Inr (rows_result [JObj [(''EXIST_COUNT'', JNum 1)]])
                  else if sql = JStr ''GRANT FLY TO SCOTT''
                    then Inl (DriverError ''ORA-00990: missing or invalid privilege'' (Some 990))
                  else Inr done_result)
               (Inr ()))
            ''SYSTEM''
            \<lparr>name = ''grant_privileges'',
             arguments = Some [''username'' \<mapsto> JStr ''scott'',
                               ''privileges'' \<mapsto> JArr [JStr ''CREATE SESSION'', JStr ''FLY'']]\<rparr>
            world0))
       = [EvGetConnection (Inr 0),
          EvExecute 0 (JStr ''SELECT COUNT(*) AS EXIST_COUNT FROM dba_users WHERE username = :username'')
            [JStr ''SCOTT''] [] (Inr (rows_result [JObj [(''EXIST_COUNT'', JNum 1)]])),
          EvExecute 0 (JStr ''GRANT CREATE SESSION TO SCOTT'') [] [AutoCommit True] (Inr done_result),
          EvExecute 0 (JStr ''GRANT FLY TO SCOTT'') [] [AutoCommit True]
            (Inl (DriverError ''ORA-00990: missing or invalid privilege'' (Some 990))),
          EvClose 0 (Inr ())]"
proof -
  let ?drv = "(stub_driver (Inr 0)
               (\<lambda>sql binds.
                  if sql = JStr user_count_sql then Inr (rows_result [JObj [(''EXIST_COUNT'', JNum 1)]])
                  else if sql = JStr ''GRANT FLY TO SCOTT''
                    then Inl (DriverError ''ORA-00990: missing or invalid privilege'' (Some 990))
                  else Inr done_result)
               (Inr ()))"
  let ?req = "\<lparr>name = ''grant_privileges'',
             arguments = Some [''username'' \<mapsto> JStr ''scott'',
                               ''privileges'' \<mapsto> JArr [JStr ''CREATE SESSION'', JStr ''FLY'']]\<rparr>"
  let ?ps = "[JStr ''CREATE SESSION'', JStr ''FLY'']"
  have n: "name ?req = ''grant_privileges''" by simp
  have u: "arg ?req ''username'' = JStr ''scott''" by (simp add: arg_def)
  have pr: "arg ?req ''privileges'' = JArr ?ps" by (simp add: arg_def)
  have g: "fst (pool_getConnection ?drv (db world0)) = Inr 0" by (simp add: stub_driver_def)
  have k: "fst (conn_execute ?drv 0 (JStr user_count_sql) [JStr (toUpperCase plain_table ''scott'')] []
                  (snd (pool_getConnection ?drv (db world0))))
             = Inr (rows_result [JObj [(''EXIST_COUNT'', JNum 1)]])"
    by (simp add: stub_driver_def limit_rows_def)
  have x: "exist_count (rows_result [JObj [(''EXIST_COUNT'', JNum 1)]]) = Inr (JNum 1)"
    by (simp add: exist_count_def rows_result_def)
  have p: "JNum 1 \<noteq> JNum 0" by simp
  have ev: "new_events world0 (snd (call_tool plain_table ?drv ''SYSTEM'' ?req world0))
       = [EvGetConnection (Inr 0),
          EvExecute 0 (JStr ''SELECT COUNT(*) AS EXIST_COUNT FROM dba_users WHERE username = :username'')
            [JStr ''SCOTT''] [] (Inr (rows_result [JObj [(''EXIST_COUNT'', JNum 1)]])),
          EvExecute 0 (JStr ''GRANT CREATE SESSION TO SCOTT'') [] [AutoCommit True] (Inr done_result),
          EvExecute 0 (JStr ''GRANT FLY TO SCOTT'') [] [AutoCommit True]
            (Inl (DriverError ''ORA-00990: missing or invalid privilege'' (Some 990))),
          EvClose 0 (Inr ())]"
    by (simp add: run_defs toUpperCase_scott grant_sql_def grant_result_def exist_count_def
          user_count_sql_def)
  from grant_privileges_per_item[OF n u pr g k x p, where user = "''SYSTEM''"] obtain rs post where
    l: "length rs = length ?ps"
    and f: "fst (call_tool plain_table ?drv ''SYSTEM'' ?req world0) =
             Inr \<lparr>payload =
                    JObj [(''message'', JStr (''Privileges processed for user '' @ toUpperCase plain_table ''scott'')),
                          (''results'',
                           JArr (map2
                             (\<lambda>privilege r.
                         case r of
                           Inr ok \<Rightarrow> JObj [(''privilege'', privilege), (''granted'', JBool True)]
                         | Inl err \<Rightarrow>
                             JObj [(''privilege'', privilege), (''granted'', JBool False),
                                   (''error'', JStr (message err))])
                             ?ps rs))],
                  isError = False\<rparr>"
    and t: "new_events world0 (snd (call_tool plain_table ?drv ''SYSTEM'' ?req world0)) =
             EvGetConnection (Inr 0)
               # EvExecute 0 (JStr user_count_sql) [JStr (toUpperCase plain_table ''scott'')] []
                   (Inr (rows_result [JObj [(''EXIST_COUNT'', JNum 1)]]))
               # map2 (\<lambda>privilege r.
                         EvExecute 0 (JStr (''GRANT '' @ js_to_string privilege @ '' TO '' @ toUpperCase plain_table ''scott''))
                           [] [AutoCommit True] r) ?ps rs
               @ post"
    by blast
  from l obtain a b where rs: "rs = [a, b]" using two_outcomes[of rs] by auto
  from t have "a = Inr done_result \<and> b = Inl (DriverError ''ORA-00990: missing or invalid privilege'' (Some 990))"
    unfolding ev rs by (simp add: user_count_sql_def toUpperCase_scott)
  with f rs have "fst (call_tool plain_table ?drv ''SYSTEM'' ?req world0)
       = Inr \<lparr>payload =
                JObj [(''message'', JStr ''Privileges processed for user SCOTT''),
                      (''results'',
                       JArr [JObj [(''privilege'', JStr ''CREATE SESSION''), (''granted'', JBool True)],
                             JObj [(''privilege'', JStr ''FLY''), (''granted'', JBool False),
                                   (''error'', JStr ''ORA-00990: missing or invalid privilege'')]])],
              isError = False\<rparr>"
    by (simp add: toUpperCase_scott)
  with ev show ?thesis by simp
qed

section \<open>get\_table\_data: the limit and the owner\<close>

text \<open>
  Claim C7: for every \<^verbatim>\<open>get_table_data\<close> invocation on an existing table, the number
  of rows returned never exceeds the caller-supplied limit (defaulting to 10 when the
  limit argument is omitted), and the data query uses an owner-qualified table reference
  (\<^verbatim>\<open>OWNER.TABLE\<close>) exactly when the table's owner differs from the connecting user.

  The handler computes the limit as \<^verbatim>\<open>(arguments?.limit as number) || 10\<close>. The
  operator takes the default for every falsy value, so a caller-supplied 0 is replaced by
  10 as if it had been omitted. Below, the driver answers the data query with the first
  \<^verbatim>\<open>:limit\<close> rows of a table of three, as \<^verbatim>\<open>ROWNUM <= :limit\<close> asks: called with
  \<^verbatim>\<open>limit: 0\<close>, the handler binds 10 and returns all three rows.
\<close>

theorem get_table_data_limit_zero:
  "fst (call_tool plain_table
     (stub_driver (Inr 0)
        (\<lambda>sql binds.
           if sql = JStr table_owner_sql then Inr (rows_result [JObj [(''OWNER'', JStr ''HR'')]])
           else if sql = JStr ''SELECT * FROM HR.EMP WHERE ROWNUM <= :limit''
             then (case binds of
                     [JNum k] \<Rightarrow>
                       Inr (rows_result (take (nat k)
                         [JObj [(''ENAME'', JStr ''KING'')], JObj [(''ENAME'', JStr ''BLAKE'')],
                          JObj [(''ENAME'', JStr ''CLARK'')]]))
                   | other \<Rightarrow> Inl (DriverError ''ORA-01722: invalid number'' (Some 1722)))
           else Inr done_result)
        (Inr ()))
     ''scott''
     \<lparr>name = ''get_table_data'', arguments = Some [''tableName'' \<mapsto> JStr ''emp'', ''limit'' \<mapsto> JNum 0]\<rparr>
     world0)
   = Inr \<lparr>payload = JObj [(''tableName'', JStr ''EMP''), (''owner'', JStr ''HR''), (''rowCount'', JNum 3),
                          (''data'', JArr [JObj [(''ENAME'', JStr ''KING'')], JObj [(''ENAME'', JStr ''BLAKE'')],
                                           JObj [(''ENAME'', JStr ''CLARK'')]])],
          isError = False\<rparr>
   \<and> statements (new_events world0 (snd (call_tool plain_table
     (stub_driver (Inr 0)
        (\<lambda>sql binds.
           if sql = JStr table_owner_sql then Inr (rows_result [JObj [(''OWNER'', JStr ''HR'')]])
           else if sql = JStr ''SELECT * FROM HR.EMP WHERE ROWNUM <= :limit''
             then (case binds of
                     [JNum k] \<Rightarrow>
                       Inr (rows_result (take (nat k)
                         [JObj [(''ENAME'', JStr ''KING'')], JObj [(''ENAME'', JStr ''BLAKE'')],
                          JObj [(''ENAME'', JStr ''CLARK'')]]))
                   | other \<Rightarrow> Inl (DriverError ''ORA-01722: invalid number'' (Some 1722)))
           else Inr done_result)
        (Inr ()))
     ''scott''
     \<lparr>name = ''get_table_data'', arguments = Some [''tableName'' \<mapsto> JStr ''emp'', ''limit'' \<mapsto> JNum 0]\<rparr>
     world0)))
   = [(JStr ''SET TRANSACTION READ ONLY'', [], []),
      (JStr ''SELECT owner FROM all_tables WHERE table_name = :tableName'', [JStr ''EMP''], []),
      (JStr ''SELECT * FROM HR.EMP WHERE ROWNUM <= :limit'', [JNum 10], [MaxRows (JNum 10)]),
      (JStr ''ROLLBACK'', [], [])]"
  by (simp add: run_defs toUpperCase_emp toUpperCase_scott js_or_def table_owner_sql_def
        table_data_sql_def fullTableName_def)

text \<open>
  What the handler does on an existing table (the owner query resolves with a first row
  whose \<^verbatim>\<open>OWNER\<close> can be read): the data query is executed with the effective limit
  \<open>lim\<close> as its bind value and as \<^verbatim>\<open>maxRows\<close>, where \<open>lim\<close> is the caller-supplied
  limit when that is truthy and 10 otherwise; for a driver that honours \<^verbatim>\<open>maxRows\<close>
  and a positive \<open>lim\<close>, a successful envelope holds at most \<open>lim\<close> rows. The table
  reference is the bare upper-case table name when the owner is the connecting user in
  upper case, and \<^verbatim>\<open>OWNER.TABLE\<close> otherwise.
\<close>

lemma get_table_data_limit_and_owner:
  assumes n: "name req = ''get_table_data''" and t: "arg req ''tableName'' = JStr tab"
    and g: "fst (pool_getConnection drv (db w)) = Inr c"
    and s: "conn_execute drv c (JStr ''SET TRANSACTION READ ONLY'') [] []
              (snd (pool_getConnection drv (db w))) = (Inr ok, d2)"
    and k: "fst (conn_execute drv c (JStr table_owner_sql) [JStr (toUpperCase tbl tab)] [] d2) = Inr tableCheck"
    and r: "rows tableCheck = Some (row # others)" and o: "js_prop row ''OWNER'' = Inr owner"
  shows "let lim = (if js_truthy (arg req ''limit'') then arg req ''limit'' else JNum 10);
             ref = (if owner = JStr (toUpperCase tbl user) then toUpperCase tbl tab
                    else js_to_string owner @ ''.'' @ toUpperCase tbl tab)
         in statements (new_events w (snd (call_tool tbl drv user req w))) =
              [(JStr ''SET TRANSACTION READ ONLY'', [], []),
               (JStr table_owner_sql, [JStr (toUpperCase tbl tab)], []),
               (JStr (''SELECT * FROM '' @ ref @ '' WHERE ROWNUM <= :limit''), [lim], [MaxRows lim]),
               (JStr ''ROLLBACK'', [], [])]
          \<and> (\<exists>env. fst (call_tool tbl drv user req w) = Inr env
                \<and> (isError env
                    \<or> (\<exists>data. payload env = JObj [(''tableName'', JStr (toUpperCase tbl tab)),
                                                   (''owner'', owner),
                                                   (''rowCount'', JNum (int (length data))),
                                                   (''data'', JArr data)]
                          \<and> (\<forall>m. honours_maxRows drv \<and> lim = JNum m \<and> 0 < m
                                  \<longrightarrow> int (length data) \<le> m))))"
proof -
  define lim where "lim = js_or (arg req ''limit'') (JNum 10)"
  define ref where "ref = fullTableName tbl user owner (toUpperCase tbl tab)"
  let ?T = "toUpperCase tbl tab"
  let ?data = "JStr (table_data_sql ref)"
  let ?cb = "get_table_data_callback tbl drv user (arg req ''tableName'') lim"
  from getConnection_acquired[OF g] obtain w1 where
    g1: "getConnection drv w = (Inr c, w1)" and t1: "trace w1 = trace w @ [EvGetConnection (Inr c)]"
    and d1: "db w1 = snd (pool_getConnection drv (db w))" by blast
  obtain w2 where e2: "execute drv c (JStr ''SET TRANSACTION READ ONLY'') [] [] w1 = (Inr ok, w2)"
    and d2: "db w2 = d2"
    using s by (simp add: execute_run d1)
  note t2 = execute_trace[OF e2]
  obtain w3 where e3: "execute drv c (JStr table_owner_sql) [JStr ?T] [] w2 = (Inr tableCheck, w3)"
    using k by (simp add: execute_run d2)
  note t3 = execute_trace[OF e3]
  obtain r4 w4 where e4: "execute drv c ?data [lim] [MaxRows lim] w3 = (r4, w4)"
    by (cases "execute drv c ?data [lim] [MaxRows lim] w3")
  note t4 = execute_trace[OF e4]
  define good where "good data = \<lparr>payload = JObj [(''tableName'', JStr ?T), (''owner'', owner),
                                  (''rowCount'', JNum (int (length data))), (''data'', JArr data)],
                  isError = False\<rparr>" for data
  have tr: "\<exists>env. get_table_data_callback tbl drv user (JStr tab) lim c w1 = (Inr env, rollback drv c w4)
            \<and> (isError env \<or> (\<exists>data. env = good data \<and> (\<exists>result. r4 = Inr result \<and> rows result = Some data)))"
  proof (cases r4)
    case (Inl err)
    then show ?thesis
      by (simp add: get_table_data_callback_def get_table_data_try_def e2 e3 e4[unfolded ref_def] r o caught_def)
  next
    case (Inr result)
    show ?thesis
    proof (cases "rows result")
      case None
      then show ?thesis using Inr
        by (simp add: get_table_data_callback_def get_table_data_try_def e2 e3 e4[unfolded ref_def] r o caught_def)
    next
      case (Some data)
      then show ?thesis using Inr
        by (simp add: get_table_data_callback_def get_table_data_try_def e2 e3 e4[unfolded ref_def] r o
              good_def)
    qed
  qed
  then obtain env where cb: "?cb c w1 = (Inr env, rollback drv c w4)"
    and ge: "isError env \<or> (\<exists>data. env = good data \<and> (\<exists>result. r4 = Inr result \<and> rows result = Some data))"
    using t by auto
  from rollback_eq[of drv c w4] obtain r5 prb where
    t5: "trace (rollback drv c w4) = trace w4 @ EvExecute c (JStr ''ROLLBACK'') [] [] r5 # prb"
    and s5: "statements prb = []" by blast
  from withConnection_acquired[where callback = ?cb, OF g1 cb] obtain post where
    fw: "fst (withConnection drv ?cb w) = Inr env"
    and tw: "trace (snd (withConnection drv ?cb w)) = trace (rollback drv c w4) @ post"
    and sp: "statements post = []" by blast
  have ct: "call_tool tbl drv user req w = withConnection drv ?cb w"
    using n by (simp add: call_tool_def lim_def)
  have ne: "new_events w (snd (call_tool tbl drv user req w)) =
      [EvGetConnection (Inr c), EvExecute c (JStr ''SET TRANSACTION READ ONLY'') [] [] (Inr ok),
       EvExecute c (JStr table_owner_sql) [JStr ?T] [] (Inr tableCheck),
       EvExecute c ?data [lim] [MaxRows lim] r4,
       EvExecute c (JStr ''ROLLBACK'') [] [] r5] @ prb @ post"
    by (rule new_events_append) (simp add: ct tw t5 t4 t3 t2 t1)
  have bound: "int (length data) \<le> m"
    if "env = good data" "\<exists>result. r4 = Inr result \<and> rows result = Some data"
       "honours_maxRows drv" "lim = JNum m" "0 < m" for data m
  proof -
    from that(2) obtain result where r4: "r4 = Inr result" and rs: "rows result = Some data" by blast
    from e4 r4 that(4) have "execute drv c ?data [JNum m] [MaxRows (JNum m)] w3 = (Inr result, w4)"
      by simp
    from maxRows_bound[OF that(3) that(5) this rs] show ?thesis .
  qed
  have st: "statements (new_events w (snd (call_tool tbl drv user req w))) =
              [(JStr ''SET TRANSACTION READ ONLY'', [], []),
               (JStr table_owner_sql, [JStr ?T], []),
               (?data, [lim], [MaxRows lim]),
               (JStr ''ROLLBACK'', [], [])]"
    by (simp add: ne s5 sp)
  have pay: "isError env
                    \<or> (\<exists>data. payload env = JObj [(''tableName'', JStr ?T),
                                                   (''owner'', owner),
                                                   (''rowCount'', JNum (int (length data))),
                                                   (''data'', JArr data)]
                          \<and> (\<forall>m. honours_maxRows drv \<and> lim = JNum m \<and> 0 < m
                                  \<longrightarrow> int (length data) \<le> m))"
    using ge bound by (auto simp: good_def)
  have "statements (new_events w (snd (call_tool tbl drv user req w))) =
              [(JStr ''SET TRANSACTION READ ONLY'', [], []),
               (JStr table_owner_sql, [JStr ?T], []),
               (?data, [lim], [MaxRows lim]),
               (JStr ''ROLLBACK'', [], [])]
          \<and> (\<exists>env. fst (call_tool tbl drv user req w) = Inr env
                \<and> (isError env
                    \<or> (\<exists>data. payload env = JObj [(''tableName'', JStr ?T),
                                                   (''owner'', owner),
                                                   (''rowCount'', JNum (int (length data))),
                                                   (''data'', JArr data)]
                          \<and> (\<forall>m. honours_maxRows drv \<and> lim = JNum m \<and> 0 < m
                                  \<longrightarrow> int (length data) \<le> m))))"
    using st pay fw ct by auto
  then show ?thesis
    by (simp add: Let_def lim_def ref_def js_or_def fullTableName_def table_data_sql_def)
qed

lemma get_table_data_limit_and_owner_example:
  "statements (new_events world0 (snd (call_tool plain_table
     (stub_driver (Inr 0)
        (\<lambda>sql binds.
           if sql = JStr table_owner_sql then Inr (rows_result [JObj [(''OWNER'', JStr ''HR'')]])
           else if sql = JStr ''SELECT * FROM HR.EMP WHERE ROWNUM <= :limit''
             then (case binds of
                     [JNum k] \<Rightarrow>
                       Inr (rows_result (take (nat k)
                         [JObj [(''ENAME'', JStr ''KING'')], JObj [(''ENAME'', JStr ''BLAKE'')],
                          JObj [(''ENAME'', JStr ''CLARK'')]]))
                   | other \<Rightarrow> Inl (DriverError ''ORA-01722: invalid number'' (Some 1722)))
           else Inr done_result)
        (Inr ()))
     ''scott''
     \<lparr>name = ''get_table_data'', arguments = Some [''tableName'' \<mapsto> JStr ''emp'', ''limit'' \<mapsto> JNum 2]\<rparr>
     world0)))
   = [(JStr ''SET TRANSACTION READ ONLY'', [], []),
      (JStr table_owner_sql, [JStr ''EMP''], []),
      (JStr ''SELECT * FROM HR.EMP WHERE ROWNUM <= :limit'', [JNum 2], [MaxRows (JNum 2)]),
      (JStr ''ROLLBACK'', [], [])]
   \<and> (\<exists>env. fst (call_tool plain_table
     (stub_driver (Inr 0)
        (\<lambda>sql binds.
           if sql = JStr table_owner_sql then Inr (rows_result [JObj [(''OWNER'', JStr ''HR'')]])
           else if sql = JStr ''SELECT * FROM HR.EMP WHERE ROWNUM <= :limit''
             then (case binds of
                     [JNum k] \<Rightarrow>
                       Inr (rows_result (take (nat k)
                         [JObj [(''ENAME'', JStr ''KING'')], JObj [(''ENAME'', JStr ''BLAKE'')],
                          JObj [(''ENAME'', JStr ''CLARK'')]]))
                   | other \<Rightarrow> Inl (DriverError ''ORA-01722: invalid number'' (Some 1722)))
           else Inr done_result)
        (Inr ()))
     ''scott''
     \<lparr>name = ''get_table_data'', arguments = Some [''tableName'' \<mapsto> JStr ''emp'', ''limit'' \<mapsto> JNum 2]\<rparr>
     world0) = Inr env
       \<and> (isError env
           \<or> (\<exists>data. payload env = JObj [(''tableName'', JStr ''EMP''), (''owner'', JStr ''HR''),
                                          (''rowCount'', JNum (int (length data))), (''data'', JArr data)]
                 \<and> int (length data) \<le> 2)))"
proof -
  let ?drv = "(stub_driver (Inr 0)
        (\<lambda>sql binds.
           if sql = JStr table_owner_sql then Inr (rows_result [JObj [(''OWNER'', JStr ''HR'')]])
           else if sql = JStr ''SELECT * FROM HR.EMP WHERE ROWNUM <= :limit''
             then (case binds of
                     [JNum k] \<Rightarrow>
                       Inr (rows_result (take (nat k)
                         [JObj [(''ENAME'', JStr ''KING'')], JObj [(''ENAME'', JStr ''BLAKE'')],
                          JObj [(''ENAME'', JStr ''CLARK'')]]))
                   | other \<Rightarrow> Inl (DriverError ''ORA-01722: invalid number'' (Some 1722)))
           else Inr done_result)
        (Inr ()))"
  let ?req = "\<lparr>name = ''get_table_data'', arguments = Some [''tableName'' \<mapsto> JStr ''emp'', ''limit'' \<mapsto> JNum 2]\<rparr>"
  have n: "name ?req = ''get_table_data''" by simp
  have t: "arg ?req ''tableName'' = JStr ''emp''" by (simp add: arg_def)
  have l: "arg ?req ''limit'' = JNum 2" by (simp add: arg_def)
  have g: "fst (pool_getConnection ?drv (db world0)) = Inr 0" by (simp add: stub_driver_def)
  have s: "conn_execute ?drv 0 (JStr ''SET TRANSACTION READ ONLY'') [] []
              (snd (pool_getConnection ?drv (db world0))) = (Inr done_result, ())"
    by (simp add: stub_driver_def limit_rows_def table_owner_sql_def)
  have k: "fst (conn_execute ?drv 0 (JStr table_owner_sql) [JStr (toUpperCase plain_table ''emp'')] [] ())
             = Inr (rows_result [JObj [(''OWNER'', JStr ''HR'')]])"
    by (simp add: stub_driver_def limit_rows_def)
  have r: "rows (rows_result [JObj [(''OWNER'', JStr ''HR'')]]) = Some (JObj [(''OWNER'', JStr ''HR'')] # [])"
    by (simp add: rows_result_def)
  have o: "js_prop (JObj [(''OWNER'', JStr ''HR'')]) ''OWNER'' = Inr (JStr ''HR'')" by simp
  have h: "honours_maxRows ?drv" by (rule stub_honours_maxRows)
  from get_table_data_limit_and_owner[OF n t g s k r o, where user = "''scott''"] h
  show ?thesis
    by (simp add: Let_def l toUpperCase_emp toUpperCase_scott)
qed

section \<open>The letter case of the username\<close>

lemma same_letter_ascii: "same_letter a b \<Longrightarrow> is_ascii a = is_ascii b"
  by (auto simp: same_letter_def upper_char_def is_ascii_def Let_def split: if_splits)

lemma same_letter_upper: "same_letter a b \<Longrightarrow> upper_char a = upper_char b"
  by (auto simp: same_letter_def upper_char_def Let_def split: if_splits)

lemma same_letter_beyond: "same_letter a b \<Longrightarrow> \<not> is_ascii a \<Longrightarrow> a = b"
  by (auto simp: same_letter_def upper_char_def is_ascii_def Let_def split: if_splits)

lemma upper_runs_same_letters:
  "list_all2 same_letter s t \<Longrightarrow> upper_runs tbl run s = upper_runs tbl run t"
proof (induction arbitrary: run rule: list_all2_induct)
  case Nil
  then show ?case by simp
next
  case (Cons a s b t)
  show ?case
  proof (cases "is_ascii a")
    case True
    with same_letter_ascii[OF Cons.hyps(1)] have "is_ascii b" by simp
    with True same_letter_upper[OF Cons.hyps(1)] Cons.IH[of "[]"] show ?thesis by simp
  next
    case False
    with same_letter_beyond[OF Cons.hyps(1)] have "a = b" by simp
    with False Cons.IH[of "run @ [a]"] show ?thesis by simp
  qed
qed

lemma differ_only_in_ascii_case_upper:
  "differ_only_in_ascii_case s t \<Longrightarrow> toUpperCase tbl s = toUpperCase tbl t"
  unfolding differ_only_in_ascii_case_def toUpperCase_def by (rule upper_runs_same_letters)

lemma toUpperCase_ascii: "list_all is_ascii s \<Longrightarrow> toUpperCase tbl s = map upper_char s"
  unfolding toUpperCase_def by (induction s) simp_all

lemma check_user_exists_callback_trace:
  "\<exists>r1. trace (snd (check_user_exists_callback drv U c w)) =
          trace w @ [EvExecute c (JStr user_count_sql) [JStr U] [] r1]"
proof -
  obtain r1 w1 where e: "execute drv c (JStr user_count_sql) [JStr U] [] w = (r1, w1)"
    by (cases "execute drv c (JStr user_count_sql) [JStr U] [] w")
  note t = execute_trace[OF e]
  show ?thesis
    by (rule exI[of _ r1]) (simp add: check_user_exists_callback_def e t split: sum.splits)
qed

lemma create_user_callback_trace:
  "\<exists>r1 r2 r3. trace (snd (create_user_callback drv U pw ts tts c w)) =
      trace w @ EvExecute c (JStr user_count_sql) [JStr U] [] r1
        # (case r1 of
             Inl err \<Rightarrow> []
           | Inr checkResult \<Rightarrow>
               (case exist_count checkResult of
                  Inl err \<Rightarrow> []
                | Inr cnt \<Rightarrow>
                    if js_gt_zero cnt then []
                    else EvExecute c (JStr (create_user_sql U pw)) [] [AutoCommit True] r2
                           # (case r2 of
                                Inl err \<Rightarrow> []
                              | Inr ok \<Rightarrow> [EvExecute c (JStr (alter_user_sql U ts tts)) [] [AutoCommit True] r3])))"
proof -
  obtain r1 w1 where e1: "execute drv c (JStr user_count_sql) [JStr U] [] w = (r1, w1)"
    by (cases "execute drv c (JStr user_count_sql) [JStr U] [] w")
  obtain r2 w2 where e2: "execute drv c (JStr (create_user_sql U pw)) [] [AutoCommit True] w1 = (r2, w2)"
    by (cases "execute drv c (JStr (create_user_sql U pw)) [] [AutoCommit True] w1")
  obtain r3 w3 where e3: "execute drv c (JStr (alter_user_sql U ts tts)) [] [AutoCommit True] w2 = (r3, w3)"
    by (cases "execute drv c (JStr (alter_user_sql U ts tts)) [] [AutoCommit True] w2")
  note t1 = execute_trace[OF e1] and t2 = execute_trace[OF e2] and t3 = execute_trace[OF e3]
  show ?thesis
    by (intro exI[of _ r1] exI[of _ r2] exI[of _ r3]; cases r1; cases r2; cases r3)
       (auto simp: create_user_callback_def e1 e2 e3 t1 t2 t3 Let_def split: sum.splits)
qed

lemma grant_privileges_callback_trace:
  "\<exists>r1 rs. (\<forall>ps. js_iterate privs = Inr ps \<longrightarrow> length rs = length ps)
      \<and> trace (snd (grant_privileges_callback drv U privs c w)) =
      trace w @ EvExecute c (JStr user_count_sql) [JStr U] [] r1
        # (case r1 of
             Inl err \<Rightarrow> []
           | Inr checkResult \<Rightarrow>
               (case exist_count checkResult of
                  Inl err \<Rightarrow> []
                | Inr cnt \<Rightarrow>
                    if cnt = JNum 0 then []
                    else (case js_iterate privs of
                            Inl err \<Rightarrow> []
                          | Inr ps \<Rightarrow>
                              map2 (\<lambda>p r. EvExecute c (JStr (grant_sql p U)) [] [AutoCommit True] r) ps rs)))"
proof -
  obtain r1 w1 where e1: "execute drv c (JStr user_count_sql) [JStr U] [] w = (r1, w1)"
    by (cases "execute drv c (JStr user_count_sql) [JStr U] [] w")
  note t1 = execute_trace[OF e1]
  define ps where "ps = (case js_iterate privs of Inl err \<Rightarrow> [] | Inr ps \<Rightarrow> ps)"
  from grant_loop_run[of ps drv c U "[]" w1] obtain rs where
    l: "length rs = length ps"
    and tl: "trace (snd (grant_loop drv c U ps [] w1)) =
          trace w1 @ map2 (\<lambda>p r. EvExecute c (JStr (grant_sql p U)) [] [AutoCommit True] r) ps rs"
    by auto
  have l': "\<forall>qs. js_iterate privs = Inr qs \<longrightarrow> length rs = length qs"
    using l by (simp add: ps_def)
  have "trace (snd (grant_privileges_callback drv U privs c w)) =
      trace w @ EvExecute c (JStr user_count_sql) [JStr U] [] r1
        # (case r1 of
             Inl err \<Rightarrow> []
           | Inr checkResult \<Rightarrow>
               (case exist_count checkResult of
                  Inl err \<Rightarrow> []
                | Inr cnt \<Rightarrow>
                    if cnt = JNum 0 then []
                    else (case js_iterate privs of
                            Inl err \<Rightarrow> []
                          | Inr ps \<Rightarrow>
                              map2 (\<lambda>p r. EvExecute c (JStr (grant_sql p U)) [] [AutoCommit True] r) ps rs)))"
    using tl
    by (auto simp: grant_privileges_callback_def e1 t1 ps_def split: sum.splits prod.splits)
  with l' show ?thesis by blast
qed

lemma toUpperCase_sharp_s: "toUpperCase sharp_s_table [CHR 0xC3, CHR 0x9F] = ''SS''"
  by code_simp

lemma toUpperCase_capital_sharp_s:
  "toUpperCase sharp_s_table [CHR 0xE1, CHR 0xBA, CHR 0x9E] = [CHR 0xE1, CHR 0xBA, CHR 0x9E]"
  by code_simp

lemma tool_events:
  assumes g: "fst (pool_getConnection drv (db w)) = Inr c"
    and t: "\<And>w1. \<exists>e. P e \<and> trace (snd (callback c w1)) = trace w1 @ e"
  shows "\<exists>e post. P e
          \<and> new_events w (snd (withConnection drv callback w)) = EvGetConnection (Inr c) # e @ post
          \<and> statements post = []"
proof -
  from getConnection_acquired[OF g] obtain w1 where
    g1: "getConnection drv w = (Inr c, w1)" and t1: "trace w1 = trace w @ [EvGetConnection (Inr c)]"
    by blast
  from t[of w1] obtain e where p: "P e" and te: "trace (snd (callback c w1)) = trace w1 @ e" by blast
  have cb: "callback c w1 = (fst (callback c w1), snd (callback c w1))" by simp
  from withConnection_acquired[where callback = callback, OF g1 cb] obtain post where
    tw: "trace (snd (withConnection drv callback w)) = trace (snd (callback c w1)) @ post"
    and sp: "statements post = []" by blast
  have "new_events w (snd (withConnection drv callback w)) = EvGetConnection (Inr c) # e @ post"
    by (rule new_events_append) (simp add: tw te t1)
  with sp p show ?thesis by blast
qed

text \<open>
  Claim C10, as the spec states it: for every invocation of \<^verbatim>\<open>check_user_exists\<close>,
  \<^verbatim>\<open>create_user\<close> or \<^verbatim>\<open>grant_privileges\<close>, the username argument is converted to
  upper case before it is compared against the user catalogue or interpolated into DDL,
  so two invocations whose username arguments differ only in letter case behave
  identically.

  The conversion is \<^verbatim>\<open>toUpperCase\<close>, and two forms of one letter need not have the
  same upper-case form. The small sharp s (U+00DF, in UTF-8 the bytes C3 9F) and the
  capital sharp s (U+1E9E, the bytes E1 BA 9E) are the two cases of one letter; the
  upper-case form of the first is SS and the second is its own upper-case form. In a
  catalogue that holds the user SS, \<^verbatim>\<open>check_user_exists\<close> binds SS and finds the user
  for the first name, and binds the capital sharp s and finds nobody for the second.
\<close>

theorem username_sharp_s_counterexample:
  "fst (call_tool sharp_s_table catalog_driver ''SYSTEM''
          \<lparr>name = ''check_user_exists'',
           arguments = Some [''username'' \<mapsto> JStr [CHR 0xC3, CHR 0x9F]]\<rparr>
          \<lparr>db = [''SS''], trace = []\<rparr>)
     = Inr \<lparr>payload = JObj [(''username'', JStr ''SS''), (''exists'', JBool True)],
            isError = False\<rparr>
   \<and> fst (call_tool sharp_s_table catalog_driver ''SYSTEM''
          \<lparr>name = ''check_user_exists'',
           arguments = Some [''username'' \<mapsto> JStr [CHR 0xE1, CHR 0xBA, CHR 0x9E]]\<rparr>
          \<lparr>db = [''SS''], trace = []\<rparr>)
     = Inr \<lparr>payload = JObj [(''username'', JStr [CHR 0xE1, CHR 0xBA, CHR 0x9E]),
                            (''exists'', JBool False)],
            isError = False\<rparr>
   \<and> statements (new_events \<lparr>db = [''SS''], trace = []\<rparr>
        (snd (call_tool sharp_s_table catalog_driver ''SYSTEM''
                \<lparr>name = ''check_user_exists'',
                 arguments = Some [''username'' \<mapsto> JStr [CHR 0xC3, CHR 0x9F]]\<rparr>
                \<lparr>db = [''SS''], trace = []\<rparr>)))
     = [(JStr ''SELECT COUNT(*) AS EXIST_COUNT FROM dba_users WHERE username = :username'',
         [JStr ''SS''], [])]
   \<and> statements (new_events \<lparr>db = [''SS''], trace = []\<rparr>
        (snd (call_tool sharp_s_table catalog_driver ''SYSTEM''
                \<lparr>name = ''check_user_exists'',
                 arguments = Some [''username'' \<mapsto> JStr [CHR 0xE1, CHR 0xBA, CHR 0x9E]]\<rparr>
                \<lparr>db = [''SS''], trace = []\<rparr>)))
     = [(JStr ''SELECT COUNT(*) AS EXIST_COUNT FROM dba_users WHERE username = :username'',
         [JStr [CHR 0xE1, CHR 0xBA, CHR 0x9E]], [])]"
  by (simp add: call_tool_def withConnection_def getConnection_def execute_def close_def
        console_error_def check_user_exists_callback_def arg_def new_events_def
        catalog_driver_def rows_result_def exist_count_def js_gt_zero_def user_count_sql_def
        toUpperCase_sharp_s toUpperCase_capital_sharp_s)

text \<open>
  Claim C10, amended: for every invocation of \<^verbatim>\<open>check_user_exists\<close>,
  \<^verbatim>\<open>create_user\<close> or \<^verbatim>\<open>grant_privileges\<close>, the username argument is converted by
  \<^verbatim>\<open>toUpperCase\<close> before it is compared against the user catalogue or interpolated
  into DDL, so two invocations whose username arguments have the same upper-case form,
  among them all that differ only in the case of the letters a to z, behave identically.

  With \<open>s\<close> the username of the request and a connection \<open>c\<close> handed out by the pool,
  the events of the call are: the borrowing; the count query with the upper-case form of
  \<open>s\<close> as its one bind value, and its outcome \<open>r1\<close>; then, when the count was read,
  for \<^verbatim>\<open>create_user\<close> with no such user the \<^verbatim>\<open>CREATE USER\<close> statement and, when it
  succeeded, the \<^verbatim>\<open>ALTER USER\<close> statement, for \<^verbatim>\<open>grant_privileges\<close> with such a user
  one \<^verbatim>\<open>GRANT\<close> statement for each privilege, and nothing otherwise, each statement
  with the upper-case form of \<open>s\<close> in it; then events that execute nothing. A request
  that differs in the username alone, by a name \<open>t\<close> that differs from \<open>s\<close> only in the
  case of the letters a to z or has the same upper-case form, gives the same result and
  leaves the same world. On an ASCII name the upper-case form is the name with a to z
  replaced by A to Z.
\<close>

theorem username_upper_cased:
  assumes n: "name req \<in> {''check_user_exists'', ''create_user'', ''grant_privileges''}"
    and a: "arguments req = Some args" and u: "args ''username'' = Some (JStr s)"
  shows "(\<forall>c. fst (pool_getConnection drv (db w)) = Inr c \<longrightarrow>
            (\<exists>r1 r2 r3 rs post.
               new_events w (snd (call_tool tbl drv user req w)) =
                 EvGetConnection (Inr c)
                 # EvExecute c
                     (JStr ''SELECT COUNT(*) AS EXIST_COUNT FROM dba_users WHERE username = :username'')
                     [JStr (toUpperCase tbl s)] [] r1
                 # (case r1 of
                      Inl err \<Rightarrow> []
                    | Inr checkResult \<Rightarrow>
                        (case exist_count checkResult of
                           Inl err \<Rightarrow> []
                         | Inr cnt \<Rightarrow>
                             if name req = ''create_user'' \<and> \<not> js_gt_zero cnt then
                               EvExecute c
                                 (JStr (''CREATE USER '' @ toUpperCase tbl s @ '' IDENTIFIED BY ''
                                        @ [CHR 0x22] @ js_to_string (arg req ''password'') @ [CHR 0x22]))
                                 [] [AutoCommit True] r2
                               # (case r2 of
                                    Inl err \<Rightarrow> []
                                  | Inr ok \<Rightarrow>
                                      [EvExecute c
                                         (JStr (''ALTER USER '' @ toUpperCase tbl s
                                                @ '' DEFAULT TABLESPACE ''
                                                @ js_to_string (js_or (arg req ''tablespace'') (JStr ''USERS''))
                                                @ '' '' @ [CHR 0x0A]
                                                @ ''           TEMPORARY TABLESPACE ''
                                                @ js_to_string (js_or (arg req ''tempTablespace'') (JStr ''TEMP''))
                                                @ '' '' @ [CHR 0x0A]
                                                @ ''           QUOTA UNLIMITED ON ''
                                                @ js_to_string (js_or (arg req ''tablespace'') (JStr ''USERS''))))
                                         [] [AutoCommit True] r3])
                             else if name req = ''grant_privileges'' \<and> cnt \<noteq> JNum 0 then
                               (case js_iterate (arg req ''privileges'') of
                                  Inl err \<Rightarrow> []
                                | Inr ps \<Rightarrow>
                                    map2 (\<lambda>privilege r.
                                            EvExecute c
                                              (JStr (''GRANT '' @ js_to_string privilege @ '' TO ''
                                                     @ toUpperCase tbl s))
                                              [] [AutoCommit True] r) ps rs)
                             else []))
                 @ post
             \<and> statements post = []
             \<and> (\<forall>ps. js_iterate (arg req ''privileges'') = Inr ps \<longrightarrow> length rs = length ps)))
       \<and> (\<forall>t. differ_only_in_ascii_case s t \<or> toUpperCase tbl t = toUpperCase tbl s \<longrightarrow>
              call_tool tbl drv user (req\<lparr>arguments := Some (args(''username'' \<mapsto> JStr t))\<rparr>) w
                = call_tool tbl drv user req w)
       \<and> (list_all is_ascii s \<longrightarrow>
              toUpperCase tbl s =
                map (\<lambda>ch. if 97 \<le> (of_char ch :: nat) \<and> (of_char ch :: nat) \<le> 122
                          then char_of ((of_char ch :: nat) - 32) else ch) s)"
proof (intro conjI allI impI)
  fix c assume g: "fst (pool_getConnection drv (db w)) = Inr c"
  let ?U = "toUpperCase tbl s"
  let ?privs = "arg req ''privileges''"
  have au: "arg req ''username'' = JStr s" using a u by (simp add: arg_def)
  define rs0 :: "(js_error + exec_result) list" where
    "rs0 = (case js_iterate ?privs of Inl err \<Rightarrow> [] | Inr ps \<Rightarrow> map (\<lambda>p. Inl (Error [])) ps)"
  have l0: "\<forall>ps. js_iterate ?privs = Inr ps \<longrightarrow> length rs0 = length ps"
    by (simp add: rs0_def)
  from n consider (check) "name req = ''check_user_exists''" | (create) "name req = ''create_user''"
    | (grant) "name req = ''grant_privileges''" by auto
  then show "\<exists>r1 r2 r3 rs post.
               new_events w (snd (call_tool tbl drv user req w)) =
                 EvGetConnection (Inr c)
                 # EvExecute c
                     (JStr ''SELECT COUNT(*) AS EXIST_COUNT FROM dba_users WHERE username = :username'')
                     [JStr (toUpperCase tbl s)] [] r1
                 # (case r1 of
                      Inl err \<Rightarrow> []
                    | Inr checkResult \<Rightarrow>
                        (case exist_count checkResult of
                           Inl err \<Rightarrow> []
                         | Inr cnt \<Rightarrow>
                             if name req = ''create_user'' \<and> \<not> js_gt_zero cnt then
                               EvExecute c
                                 (JStr (''CREATE USER '' @ toUpperCase tbl s @ '' IDENTIFIED BY ''
                                        @ [CHR 0x22] @ js_to_string (arg req ''password'') @ [CHR 0x22]))
                                 [] [AutoCommit True] r2
                               # (case r2 of
                                    Inl err \<Rightarrow> []
                                  | Inr ok \<Rightarrow>
                                      [EvExecute c
                                         (JStr (''ALTER USER '' @ toUpperCase tbl s
                                                @ '' DEFAULT TABLESPACE ''
                                                @ js_to_string (js_or (arg req ''tablespace'') (JStr ''USERS''))
                                                @ '' '' @ [CHR 0x0A]
                                                @ ''           TEMPORARY TABLESPACE ''
                                                @ js_to_string (js_or (arg req ''tempTablespace'') (JStr ''TEMP''))
                                                @ '' '' @ [CHR 0x0A]
                                                @ ''           QUOTA UNLIMITED ON ''
                                                @ js_to_string (js_or (arg req ''tablespace'') (JStr ''USERS''))))
                                         [] [AutoCommit True] r3])
                             else if name req = ''grant_privileges'' \<and> cnt \<noteq> JNum 0 then
                               (case js_iterate (arg req ''privileges'') of
                                  Inl err \<Rightarrow> []
                                | Inr ps \<Rightarrow>
                                    map2 (\<lambda>privilege r.
                                            EvExecute c
                                              (JStr (''GRANT '' @ js_to_string privilege @ '' TO ''
                                                     @ toUpperCase tbl s))
                                              [] [AutoCommit True] r) ps rs)
                             else []))
                 @ post
             \<and> statements post = []
             \<and> (\<forall>ps. js_iterate (arg req ''privileges'') = Inr ps \<longrightarrow> length rs = length ps)"
  proof cases
    case check
    let ?cb = "check_user_exists_callback drv ?U"
    let ?E = "\<lambda>r1. [EvExecute c (JStr user_count_sql) [JStr ?U] [] r1]"
    have ct: "call_tool tbl drv user req w = withConnection drv ?cb w"
      using check au by (simp add: call_tool_def)
    have ex: "\<exists>e. (\<exists>r1. e = ?E r1) \<and> trace (snd (?cb c w1)) = trace w1 @ e" for w1
      using check_user_exists_callback_trace[of drv ?U c w1] by blast
    from tool_events[where callback = ?cb and P = "\<lambda>e. \<exists>r1. e = ?E r1", OF g ex]
    obtain r1 post where
      ne: "new_events w (snd (withConnection drv ?cb w)) = EvGetConnection (Inr c) # ?E r1 @ post"
      and sp: "statements post = []" by blast
    show ?thesis
      using sp l0 check
      by (intro exI[of _ r1] exI[of _ rs0] exI[of _ post])
         (simp add: ct ne user_count_sql_def split: sum.splits)
  next
    case create
    let ?pw = "arg req ''password''"
    let ?ts = "js_or (arg req ''tablespace'') (JStr ''USERS'')"
    let ?tts = "js_or (arg req ''tempTablespace'') (JStr ''TEMP'')"
    let ?cb = "create_user_callback drv ?U ?pw ?ts ?tts"
    let ?E = "\<lambda>r1 r2 r3.
         EvExecute c (JStr user_count_sql) [JStr ?U] [] r1
           # (case r1 of
                Inl err \<Rightarrow> []
              | Inr checkResult \<Rightarrow>
                  (case exist_count checkResult of
                     Inl err \<Rightarrow> []
                   | Inr cnt \<Rightarrow>
                       if js_gt_zero cnt then []
                       else EvExecute c (JStr (create_user_sql ?U ?pw)) [] [AutoCommit True] r2
                              # (case r2 of
                                   Inl err \<Rightarrow> []
                                 | Inr ok \<Rightarrow> [EvExecute c (JStr (alter_user_sql ?U ?ts ?tts)) [] [AutoCommit True] r3])))"
    have ct: "call_tool tbl drv user req w = withConnection drv ?cb w"
      using create au by (simp add: call_tool_def)
    have ex: "\<exists>e. (\<exists>r1 r2 r3. e = ?E r1 r2 r3) \<and> trace (snd (?cb c w1)) = trace w1 @ e" for w1
      using create_user_callback_trace[of drv ?U ?pw ?ts ?tts c w1] by blast
    from tool_events[where callback = ?cb and P = "\<lambda>e. \<exists>r1 r2 r3. e = ?E r1 r2 r3", OF g ex]
    obtain r1 r2 r3 post where
      ne: "new_events w (snd (withConnection drv ?cb w)) = EvGetConnection (Inr c) # ?E r1 r2 r3 @ post"
      and sp: "statements post = []" by blast
    show ?thesis
      using sp l0 create
      by (intro exI[of _ r1] exI[of _ r2] exI[of _ r3] exI[of _ rs0] exI[of _ post])
         (simp add: ct ne user_count_sql_def create_user_sql_def alter_user_sql_def
            split: sum.splits)
  next
    case grant
    let ?cb = "grant_privileges_callback drv ?U ?privs"
    let ?E = "\<lambda>r1 rs.
         EvExecute c (JStr user_count_sql) [JStr ?U] [] r1
           # (case r1 of
                Inl err \<Rightarrow> []
              | Inr checkResult \<Rightarrow>
                  (case exist_count checkResult of
                     Inl err \<Rightarrow> []
                   | Inr cnt \<Rightarrow>
                       if cnt = JNum 0 then []
                       else (case js_iterate ?privs of
                               Inl err \<Rightarrow> []
                             | Inr ps \<Rightarrow>
                                 map2 (\<lambda>p r. EvExecute c (JStr (grant_sql p ?U)) [] [AutoCommit True] r) ps rs)))"
    let ?P = "\<lambda>e. \<exists>r1 rs. (\<forall>ps. js_iterate ?privs = Inr ps \<longrightarrow> length rs = length ps) \<and> e = ?E r1 rs"
    have ct: "call_tool tbl drv user req w = withConnection drv ?cb w"
      using grant au by (simp add: call_tool_def)
    have ex: "\<exists>e. ?P e \<and> trace (snd (?cb c w1)) = trace w1 @ e" for w1
      using grant_privileges_callback_trace[of ?privs drv ?U c w1] by blast
    from tool_events[where callback = ?cb and P = ?P, OF g ex]
    obtain r1 rs post where
      l: "\<forall>ps. js_iterate ?privs = Inr ps \<longrightarrow> length rs = length ps"
      and ne: "new_events w (snd (withConnection drv ?cb w)) = EvGetConnection (Inr c) # ?E r1 rs @ post"
      and sp: "statements post = []" by blast
    show ?thesis
      using sp l grant
      by (intro exI[of _ r1] exI[of _ r1] exI[of _ r1] exI[of _ rs] exI[of _ post])
         (simp add: ct ne user_count_sql_def grant_sql_def split: sum.splits)
  qed
next
  fix t assume d: "differ_only_in_ascii_case s t \<or> toUpperCase tbl t = toUpperCase tbl s"
  then have e: "toUpperCase tbl t = toUpperCase tbl s"
    using differ_only_in_ascii_case_upper[of s t tbl] by auto
  from n a u e
  show "call_tool tbl drv user (req\<lparr>arguments := Some (args(''username'' \<mapsto> JStr t))\<rparr>) w
          = call_tool tbl drv user req w"
    by (auto simp: call_tool_def arg_def)
next
  assume "list_all is_ascii s"
  then show "toUpperCase tbl s =
                map (\<lambda>ch. if 97 \<le> (of_char ch :: nat) \<and> (of_char ch :: nat) \<le> 122
                          then char_of ((of_char ch :: nat) - 32) else ch) s"
    by (simp add: toUpperCase_ascii upper_char_def Let_def)
qed

text \<open>
  \<^verbatim>\<open>create_user\<close> for \<^verbatim>\<open>scott\<close> and for \<^verbatim>\<open>ScoTT\<close>, with no such user in the
  catalogue: every statement names \<^verbatim>\<open>SCOTT\<close>.
\<close>

theorem username_upper_cased_witness:
  "differ_only_in_ascii_case ''scott'' ''ScoTT''
   \<and> call_tool plain_table
        (stub_driver (Inr 0) (\<lambda>sql binds. if sql = JStr user_count_sql
                         then Inr (rows_result [JObj [(''EXIST_COUNT'', JNum 0)]])
                         else Inr done_result) (Inr ()))
        ''SYSTEM''
        \<lparr>name = ''create_user'',
         arguments = Some [''password'' \<mapsto> JStr ''tiger'', ''username'' \<mapsto> JStr ''ScoTT'']\<rparr>
        world0
     = call_tool plain_table
        (stub_driver (Inr 0) (\<lambda>sql binds. if sql = JStr user_count_sql
                         then Inr (rows_result [JObj [(''EXIST_COUNT'', JNum 0)]])
                         else Inr done_result) (Inr ()))
        ''SYSTEM''
        \<lparr>name = ''create_user'',
         arguments = Some [''password'' \<mapsto> JStr ''tiger'', ''username'' \<mapsto> JStr ''scott'']\<rparr>
        world0
   \<and> toUpperCase plain_table ''scott'' = ''SCOTT''
   \<and> new_events world0
        (snd (call_tool plain_table
                (stub_driver (Inr 0) (\<lambda>sql binds. if sql = JStr user_count_sql
                         then Inr (rows_result [JObj [(''EXIST_COUNT'', JNum 0)]])
                         else Inr done_result) (Inr ()))
                ''SYSTEM''
                \<lparr>name = ''create_user'',
                 arguments = Some [''password'' \<mapsto> JStr ''tiger'', ''username'' \<mapsto> JStr ''scott'']\<rparr>
                world0))
     = [EvGetConnection (Inr 0),
        EvExecute 0 (JStr ''SELECT COUNT(*) AS EXIST_COUNT FROM dba_users WHERE username = :username'')
          [JStr ''SCOTT''] [] (Inr (rows_result [JObj [(''EXIST_COUNT'', JNum 0)]])),
        EvExecute 0 (JStr (''CREATE USER SCOTT IDENTIFIED BY '' @ [CHR 0x22] @ ''tiger'' @ [CHR 0x22]))
          [] [AutoCommit True] (Inr done_result),
        EvExecute 0
          (JStr (''ALTER USER SCOTT DEFAULT TABLESPACE USERS '' @ [CHR 0x0A]
                 @ ''           TEMPORARY TABLESPACE TEMP '' @ [CHR 0x0A]
                 @ ''           QUOTA UNLIMITED ON USERS''))
          [] [AutoCommit True] (Inr done_result),
        EvClose 0 (Inr ())]"
proof -
  let ?drv = "stub_driver (Inr 0) (\<lambda>sql binds. if sql = JStr user_count_sql
                         then Inr (rows_result [JObj [(''EXIST_COUNT'', JNum 0)]])
                         else Inr done_result) (Inr ())"
  let ?args = "[''password'' \<mapsto> JStr ''tiger'', ''username'' \<mapsto> JStr ''scott'']"
  let ?req = "\<lparr>name = ''create_user'', arguments = Some ?args\<rparr>"
  have n: "name ?req \<in> {''check_user_exists'', ''create_user'', ''grant_privileges''}" by simp
  have a: "arguments ?req = Some ?args" by simp
  have u: "?args ''username'' = Some (JStr ''scott'')" by simp
  have d: "differ_only_in_ascii_case ''scott'' ''ScoTT''" by code_simp
  have asc: "list_all is_ascii ''scott''" by code_simp
  have m: "map (\<lambda>ch. if 97 \<le> (of_char ch :: nat) \<and> (of_char ch :: nat) \<le> 122
                          then char_of ((of_char ch :: nat) - 32) else ch) ''scott'' = ''SCOTT''"
    by code_simp
  note th = username_upper_cased[OF n a u, where tbl = plain_table and drv = ?drv
      and w = world0 and user = "''SYSTEM''"]
  from th[THEN conjunct2, THEN conjunct1] d
  have eq: "call_tool plain_table ?drv ''SYSTEM''
              (?req\<lparr>arguments := Some (?args(''username'' \<mapsto> JStr ''ScoTT''))\<rparr>) world0
            = call_tool plain_table ?drv ''SYSTEM'' ?req world0"
    by blast
  from th[THEN conjunct2, THEN conjunct2] asc m
  have up: "toUpperCase plain_table ''scott'' = ''SCOTT''" by simp
  have ev: "new_events world0 (snd (call_tool plain_table ?drv ''SYSTEM'' ?req world0))
     = [EvGetConnection (Inr 0),
        EvExecute 0 (JStr ''SELECT COUNT(*) AS EXIST_COUNT FROM dba_users WHERE username = :username'')
          [JStr ''SCOTT''] [] (Inr (rows_result [JObj [(''EXIST_COUNT'', JNum 0)]])),
        EvExecute 0 (JStr (''CREATE USER SCOTT IDENTIFIED BY '' @ [CHR 0x22] @ ''tiger'' @ [CHR 0x22]))
          [] [AutoCommit True] (Inr done_result),
        EvExecute 0
          (JStr (''ALTER USER SCOTT DEFAULT TABLESPACE USERS '' @ [CHR 0x0A]
                 @ ''           TEMPORARY TABLESPACE TEMP '' @ [CHR 0x0A]
                 @ ''           QUOTA UNLIMITED ON USERS''))
          [] [AutoCommit True] (Inr done_result),
        EvClose 0 (Inr ())]"
    by (simp add: call_tool_def withConnection_def getConnection_def execute_def close_def
          console_error_def create_user_callback_def arg_def new_events_def stub_driver_def
          limit_rows_def world0_def done_result_def rows_result_def up create_user_sql_def
          alter_user_sql_def exist_count_def js_gt_zero_def js_or_def user_count_sql_def)
  from eq have eq': "call_tool plain_table ?drv ''SYSTEM''
              \<lparr>name = ''create_user'',
               arguments = Some [''password'' \<mapsto> JStr ''tiger'', ''username'' \<mapsto> JStr ''ScoTT'']\<rparr> world0
            = call_tool plain_table ?drv ''SYSTEM'' ?req world0"
    by simp
  from d eq' up ev show ?thesis by blast
qed

section \<open>Resource URIs and the password\<close>

lemma first_match_append:
  "first_match f (xs @ ys) = (case first_match f xs of Some y \<Rightarrow> Some y | None \<Rightarrow> first_match f ys)"
  by (induction xs) (simp_all split: option.splits)

lemma first_match_map:
  "first_match f (map g xs) = first_match (\<lambda>x. f (g x)) xs"
  by (induction xs) (simp_all split: option.splits)

lemma first_match_map_option:
  "first_match (\<lambda>x. map_option h (f x)) xs = map_option h (first_match f xs)"
  by (induction xs) (simp_all split: option.splits)

lemma group_then_Cons:
  "group_then p lit k (ch # s) =
     (if p ch
      then (case group_then p lit k s of
              Some (g, y) \<Rightarrow> Some (ch # g, y)
            | None \<Rightarrow>
                (case s of
                   [] \<Rightarrow> None
                 | c # r \<Rightarrow> if c = lit then map_option (\<lambda>y. ([ch], y)) (k r) else None))
      else None)"
proof (cases "p ch")
  case False
  then show ?thesis by (simp add: group_then_def)
next
  case True
  let ?F = "\<lambda>(g, r). case r of
                   [] \<Rightarrow> None
                 | c # r' \<Rightarrow> if c = lit then map_option (\<lambda>y. (g, y)) (k r') else None"
  have e: "(\<lambda>x. ?F ((\<lambda>(a, b). (ch # a, b)) x)) = (\<lambda>x. map_option (\<lambda>(g, y). (ch # g, y)) (?F x))"
    by (intro ext) (auto split: list.splits simp: option.map_comp comp_def)
  have "first_match ?F (map (\<lambda>(a, b). (ch # a, b)) (plus_splits p s))
        = map_option (\<lambda>(g, y). (ch # g, y)) (first_match ?F (plus_splits p s))"
    unfolding first_match_map e by (rule first_match_map_option)
  then show ?thesis using True
    by (auto simp: group_then_def first_match_append split: option.splits list.splits)
qed

text \<open>What a match of a group says about the input.\<close>

lemma group_then_sound:
  "group_then p lit k s = Some (g, y) \<Longrightarrow> \<exists>r. s = g @ lit # r \<and> g \<noteq> [] \<and> list_all p g \<and> k r = Some y"
proof (induction s arbitrary: g)
  case Nil
  then show ?case by (simp add: group_then_def)
next
  case (Cons ch s)
  note step = group_then_Cons[of p lit k ch s]
  show ?case
  proof (cases "group_then p lit k s")
    case None
    from Cons.prems have
      "(if p ch
        then (case s of
                [] \<Rightarrow> None
              | c # r \<Rightarrow> if c = lit then map_option (\<lambda>y. ([ch], y)) (k r) else None)
        else None) = Some (g, y)"
      by (simp add: step None split: if_splits)
    then show ?thesis by (cases s) (auto split: if_splits)
  next
    case (Some a)
    obtain g1 y1 where a: "a = (g1, y1)" by (cases a)
    from Cons.prems have e: "y1 = y" "g = ch # g1" "p ch"
      by (auto simp: step Some a split: if_splits)
    from Cons.IH[of g1] Some a e(1) obtain r where
      "s = g1 @ lit # r \<and> g1 \<noteq> [] \<and> list_all p g1 \<and> k r = Some y" by auto
    with e show ?thesis by auto
  qed
qed

text \<open>No match when the rest fails after every occurrence of the literal.\<close>

lemma group_then_none:
  "(\<And>g r. g \<noteq> [] \<Longrightarrow> s = g @ lit # r \<Longrightarrow> k r = None) \<Longrightarrow> group_then p lit k s = None"
proof (induction s)
  case Nil
  then show ?case by (simp add: group_then_def)
next
  case (Cons ch s)
  have n: "group_then p lit k s = None"
  proof (rule Cons.IH)
    fix g r assume "g \<noteq> []" "s = g @ lit # r"
    then show "k r = None" using Cons.prems[of "ch # g" r] by simp
  qed
  have t: "(case s of
              [] \<Rightarrow> None
            | c # r \<Rightarrow> if c = lit then map_option (\<lambda>y. ([ch], y)) (k r) else None) = None"
  proof (cases s)
    case (Cons c r)
    then show ?thesis using Cons.prems[of "[ch]" r] by simp
  qed simp
  show ?case by (simp add: group_then_Cons[of p lit k ch s] n t)
qed

text \<open>
  A greedy group ends at the last occurrence of the literal after which the rest
  matches.
\<close>

lemma group_then_greedy:
  assumes "g \<noteq> []" and "list_all p g" and "k r = Some y"
    and later: "\<And>x r'. r = x @ lit # r' \<Longrightarrow> k r' = None"
  shows "group_then p lit k (g @ lit # r) = Some (g, y)"
  using assms(1,2)
proof (induction g)
  case Nil
  then show ?case by simp
next
  case (Cons ch g)
  show ?case
  proof (cases "g = []")
    case True
    have "group_then p lit k (lit # r) = None"
    proof (rule group_then_none)
      fix g' r' assume "g' \<noteq> []" "lit # r = g' @ lit # r'"
      then obtain x where "r = x @ lit # r'" by (cases g') auto
      then show "k r' = None" by (rule later)
    qed
    with True Cons.prems assms(3) show ?thesis
      by (simp add: group_then_Cons[of p lit k ch "lit # r"])
  next
    case False
    with Cons have "group_then p lit k (g @ lit # r) = Some (g, y)" by simp
    with Cons.prems show ?thesis by (simp add: group_then_Cons[of p lit k ch "g @ lit # r"])
  qed
qed

lemma group_end_some: "s \<noteq> [] \<Longrightarrow> list_all dot s \<Longrightarrow> group_end s = Some s"
  by (simp add: group_end_def)

lemma port_match:
  assumes "port \<noteq> []" "list_all is_digit port" "svc \<noteq> []" "list_all dot svc" "CHR ''/'' \<notin> set svc"
  shows "group_then is_digit CHR ''/'' group_end (port @ CHR ''/'' # svc) = Some (port, svc)"
proof (rule group_then_greedy)
  fix x r' assume "svc = x @ CHR ''/'' # r'"
  with assms(5) show "group_end r' = None" by simp
qed (use assms in \<open>simp_all add: group_end_def\<close>)

lemma port_none:
  assumes "CHR ''/'' \<notin> set s"
  shows "group_then is_digit CHR ''/'' group_end s = None"
proof (cases "group_then is_digit CHR ''/'' group_end s")
  case (Some a)
  obtain g y where "a = (g, y)" by (cases a)
  with Some group_then_sound[of is_digit "CHR ''/''" group_end s g y] assms show ?thesis by auto
qed simp

lemma host_none:
  assumes "CHR ''/'' \<notin> set s"
  shows "group_then dot CHR '':'' (group_then is_digit CHR ''/'' group_end) s = None"
proof (cases "group_then dot CHR '':'' (group_then is_digit CHR ''/'' group_end) s")
  case (Some a)
  obtain g y where "a = (g, y)" by (cases a)
  with Some group_then_sound[of dot "CHR '':''" "group_then is_digit CHR ''/'' group_end" s g y]
  obtain r where "s = g @ CHR '':'' # r" "group_then is_digit CHR ''/'' group_end r = Some y" by blast
  with port_none[of r] assms show ?thesis by auto
qed simp

lemma password_none:
  assumes "CHR ''/'' \<notin> set s"
  shows "group_then dot CHR ''@'' (group_then dot CHR '':'' (group_then is_digit CHR ''/'' group_end)) s = None"
proof (cases "group_then dot CHR ''@'' (group_then dot CHR '':'' (group_then is_digit CHR ''/'' group_end)) s")
  case (Some a)
  obtain g y where "a = (g, y)" by (cases a)
  with Some group_then_sound[of dot "CHR ''@''" "group_then dot CHR '':'' (group_then is_digit CHR ''/'' group_end)" s g y]
  obtain r where "s = g @ CHR ''@'' # r"
    "group_then dot CHR '':'' (group_then is_digit CHR ''/'' group_end) r = Some y" by blast
  with host_none[of r] assms show ?thesis by auto
qed simp

text \<open>What follows a character that the front of a list does not contain lies in the back.\<close>

lemma split_in_back:
  assumes "a @ b = x @ c # r" and "c \<notin> set a"
  shows "\<exists>z. b = z @ c # r"
proof -
  from assms(1) obtain us where "(a = x @ us \<and> us @ b = c # r) \<or> (a @ us = x \<and> b = us @ c # r)"
    by (auto simp: append_eq_append_conv2)
  then show ?thesis
  proof
    assume h: "a = x @ us \<and> us @ b = c # r"
    show ?thesis
    proof (cases us)
      case Nil
      with h show ?thesis by auto
    next
      case (Cons u us')
      with h have "u = c" by simp
      with h Cons assms(2) show ?thesis by simp
    qed
  next
    assume "a @ us = x \<and> b = us @ c # r"
    then show ?thesis by blast
  qed
qed

lemma digits_no_literal:
  "list_all is_digit port \<Longrightarrow> CHR ''/'' \<notin> set port \<and> CHR ''@'' \<notin> set port \<and> CHR '':'' \<notin> set port"
  by (auto simp: list_all_iff is_digit_def)

lemma digits_dot: "list_all is_digit port \<Longrightarrow> list_all dot port"
  by (auto simp: list_all_iff is_digit_def dot_def)

lemma host_match:
  assumes h: "h \<noteq> []" "list_all dot h"
    and po: "port \<noteq> []" "list_all is_digit port"
    and sv: "svc \<noteq> []" "list_all dot svc" "CHR ''/'' \<notin> set svc"
  shows "group_then dot CHR '':'' (group_then is_digit CHR ''/'' group_end)
           (h @ CHR '':'' # port @ CHR ''/'' # svc) = Some (h, port, svc)"
proof (rule group_then_greedy)
  show "group_then is_digit CHR ''/'' group_end (port @ CHR ''/'' # svc) = Some (port, svc)"
    using po sv by (rule port_match)
next
  fix x r' assume e: "port @ CHR ''/'' # svc = x @ CHR '':'' # r'"
  from digits_no_literal[OF po(2)] have "CHR '':'' \<notin> set (port @ ''/'')" by simp
  with e split_in_back[of "port @ ''/''" svc x "CHR '':''" r'] obtain z where "svc = z @ CHR '':'' # r'"
    by auto
  with sv(3) have "CHR ''/'' \<notin> set r'" by simp
  then show "group_then is_digit CHR ''/'' group_end r' = None" by (rule port_none)
qed (use h in simp_all)

lemma password_match:
  assumes pw: "pw \<noteq> []" "list_all dot pw"
    and h: "h \<noteq> []" "list_all dot h" "CHR ''@'' \<notin> set h"
    and po: "port \<noteq> []" "list_all is_digit port"
    and sv: "svc \<noteq> []" "list_all dot svc" "CHR ''/'' \<notin> set svc"
  shows "group_then dot CHR ''@'' (group_then dot CHR '':'' (group_then is_digit CHR ''/'' group_end))
           (pw @ CHR ''@'' # h @ CHR '':'' # port @ CHR ''/'' # svc) = Some (pw, h, port, svc)"
proof (rule group_then_greedy)
  show "group_then dot CHR '':'' (group_then is_digit CHR ''/'' group_end)
           (h @ CHR '':'' # port @ CHR ''/'' # svc) = Some (h, port, svc)"
    using h(1,2) po sv by (rule host_match)
next
  fix x r' assume e: "h @ CHR '':'' # port @ CHR ''/'' # svc = x @ CHR ''@'' # r'"
  from digits_no_literal[OF po(2)] h(3) have "CHR ''@'' \<notin> set (h @ CHR '':'' # port @ ''/'')" by simp
  with e split_in_back[of "h @ CHR '':'' # port @ ''/''" svc x "CHR ''@''" r'] obtain z where
    "svc = z @ CHR ''@'' # r'" by auto
  with sv(3) have "CHR ''/'' \<notin> set r'" by simp
  then show "group_then dot CHR '':'' (group_then is_digit CHR ''/'' group_end) r' = None"
    by (rule host_none)
qed (use pw in simp_all)

lemma connection_match_components:
  assumes u: "u \<noteq> []" "list_all dot u"
    and pw: "pw \<noteq> []" "list_all dot pw" "CHR ''/'' \<notin> set pw"
    and h: "h \<noteq> []" "list_all dot h" "CHR ''/'' \<notin> set h" "CHR ''@'' \<notin> set h"
    and po: "port \<noteq> []" "list_all is_digit port"
    and sv: "svc \<noteq> []" "list_all dot svc" "CHR ''/'' \<notin> set svc"
    and ls: "\<not> line_separator_in (connection_string u pw h port svc)"
  shows "connection_match (connection_string u pw h port svc) = Some (u, pw, h, port, svc)"
proof -
  let ?k = "group_then dot CHR ''@'' (group_then dot CHR '':'' (group_then is_digit CHR ''/'' group_end))"
  have "group_then dot CHR ''/'' ?k (u @ CHR ''/'' # pw @ CHR ''@'' # h @ CHR '':'' # port @ CHR ''/'' # svc)
        = Some (u, pw, h, port, svc)"
  proof (rule group_then_greedy)
    show "?k (pw @ CHR ''@'' # h @ CHR '':'' # port @ CHR ''/'' # svc) = Some (pw, h, port, svc)"
      using pw(1,2) h(1,2,4) po sv by (rule password_match)
  next
    fix x r' assume e: "pw @ CHR ''@'' # h @ CHR '':'' # port @ CHR ''/'' # svc = x @ CHR ''/'' # r'"
    from digits_no_literal[OF po(2)] pw(3) h(3)
    have n: "CHR ''/'' \<notin> set (pw @ CHR ''@'' # h @ CHR '':'' # port)" by simp
    from e have "(pw @ CHR ''@'' # h @ CHR '':'' # port) @ (CHR ''/'' # svc) = x @ CHR ''/'' # r'" by simp
    from split_in_back[OF this n] obtain z where z: "CHR ''/'' # svc = z @ CHR ''/'' # r'" by blast
    have "CHR ''/'' \<notin> set r'"
    proof (cases z)
      case Nil
      with z sv(3) show ?thesis by simp
    next
      case (Cons a z')
      with z sv(3) show ?thesis by auto
    qed
    then show "?k r' = None" by (rule password_none)
  qed (use u in simp_all)
  with ls show ?thesis by (simp add: connection_match_def connection_string_def)
qed

lemma startup_components:
  assumes "u \<noteq> []" "list_all dot u"
    and "pw \<noteq> []" "list_all dot pw" "CHR ''/'' \<notin> set pw"
    and "h \<noteq> []" "list_all dot h" "CHR ''/'' \<notin> set h" "CHR ''@'' \<notin> set h"
    and "port \<noteq> []" "list_all is_digit port"
    and "svc \<noteq> []" "list_all dot svc" "CHR ''/'' \<notin> set svc"
    and "\<not> line_separator_in (connection_string u pw h port svc)"
  shows "startup url [connection_string u pw h port svc] =
           (case url_new url (''oracle://'' @ u @ ''@'' @ h @ '':'' @ port @ ''/'' @ svc) of
              Inl err \<Rightarrow> Uncaught err
            | Inr resourceBaseUrl \<Rightarrow> Started u pw h port svc resourceBaseUrl)"
  by (simp add: startup_def connection_match_components[OF assms])

text \<open>
  When neither the password nor the host nor the service name has a slash in it, the
  host has no at sign and no component has a line terminator, the pattern takes the
  connection string apart into the components it was put together from, and the
  resources listed do not depend on the password.
\<close>

lemma list_resources_password_without_slash:
  assumes u: "u \<noteq> []" "list_all dot u"
    and p1: "pw1 \<noteq> []" "list_all dot pw1" "CHR ''/'' \<notin> set pw1"
    and p2: "pw2 \<noteq> []" "list_all dot pw2" "CHR ''/'' \<notin> set pw2"
    and h: "h \<noteq> []" "list_all dot h" "CHR ''/'' \<notin> set h" "CHR ''@'' \<notin> set h"
    and po: "port \<noteq> []" "list_all is_digit port"
    and sv: "svc \<noteq> []" "list_all dot svc" "CHR ''/'' \<notin> set svc"
    and l1: "\<not> line_separator_in (connection_string u pw1 h port svc)"
    and l2: "\<not> line_separator_in (connection_string u pw2 h port svc)"
  shows "started_list_resources drv url [connection_string u pw1 h port svc] w
           = started_list_resources drv url [connection_string u pw2 h port svc] w"
  by (simp add: started_list_resources_def startup_components[OF u p1 h po sv l1]
        startup_components[OF u p2 h po sv l2] split: sum.splits)

lemma list_resources_password_without_slash_example:
  "map_option fst
     (started_list_resources
        (stub_driver (Inr 0) (\<lambda>sql binds. Inr (rows_result [JObj [(''TABLE_NAME'', JStr ''EMP'')]])) (Inr ()))
        segment_url [connection_string ''scott'' ''tiger'' ''db'' ''1521'' ''XE''] world0)
     = Some (Inr [\<lparr>uri = ''oracle://scott@db:1521/EMP/schema'',
                   mimeType = ''application/json'',
                   resource_name = [CHR 0x22] @ ''EMP'' @ [CHR 0x22] @ '' database schema''\<rparr>])"
proof -
  have m: "connection_match (connection_string ''scott'' ''tiger'' ''db'' ''1521'' ''XE'')
             = Some (''scott'', ''tiger'', ''db'', ''1521'', ''XE'')"
    by code_simp
  show ?thesis
    by (simp add: started_list_resources_def startup_def m list_resources_def
          list_resources_callback_def row_resource_def SCHEMA_PATH_def segment_url_def
          withConnection_def getConnection_def execute_def close_def console_error_def
          stub_driver_def limit_rows_def world0_def rows_result_def)
qed




end
